theory Spec2Isabelle
  imports Complex_Main "HOL-Library.AList"
begin

text \<open>
  A shallow embedding of the data pipeline of the air-quality visualisation: the CSV
  loader with its cache and its search for the data root (data-loader.js), the field
  resolver, the two down-samplers, the grid sampler of the wind field
  (windfield-canvas-visualization.js) and the correlation matrix
  (correlation-visualization.js). Functions keep the names they have in the source.
\<close>

section \<open>JavaScript numbers and values\<close>

text \<open>
  A JavaScript number is an IEEE 754 double: a finite value or one of the three special
  values. A finite value is modelled by the real number it stands for, and every
  arithmetic operation rounds its exact result to the nearest double, ties to the even
  significand, as the engine does. The two zeros are one value here: the code modelled
  below never reads the sign of a zero, and its divisors (a count, the width of a cell,
  the root of a product of sums of squares) are never the negative zero.
\<close>

datatype jsnum = Fin real | PInf | NInf | NaN

text \<open>The sign of an infinite result, given the sign of the finite operand.\<close>

definition signed_inf :: "bool \<Rightarrow> jsnum" where
  "signed_inf positive = (if positive then PInf else NInf)"

text \<open>The nearest integer, a tie going to the even one.\<close>

definition rhe :: "real \<Rightarrow> int" where
  "rhe x = (if x - of_int \<lfloor>x\<rfloor> < 1 / 2 then \<lfloor>x\<rfloor>
            else if 1 / 2 < x - of_int \<lfloor>x\<rfloor> then \<lfloor>x\<rfloor> + 1
            else if even \<lfloor>x\<rfloor> then \<lfloor>x\<rfloor> else \<lfloor>x\<rfloor> + 1)"

text \<open>
  The exponent of the unit in the last place of the doubles around \<open>r\<close>: a significand has
  53 bits, and below 2 to the power -1022 the doubles are the multiples of 2 to the
  power -1074.
\<close>

definition ulp_exponent :: "real \<Rightarrow> int" where
  "ulp_exponent r = max (\<lfloor>log 2 \<bar>r\<bar>\<rfloor> - 52) (- 1074)"

text \<open>
  The double an exact result \<open>r\<close> is rounded to: the nearest multiple of the unit in the
  last place, or an infinity when that multiple is beyond the largest double.
\<close>

definition rnd :: "real \<Rightarrow> jsnum" where
  "rnd r =
     (if r = 0 then Fin 0
      else let v = of_int (rhe (r / 2 powr of_int (ulp_exponent r)))
                     * 2 powr of_int (ulp_exponent r)
           in if 2 ^ 1024 \<le> \<bar>v\<bar> then signed_inf (0 < r) else Fin v)"

fun jneg :: "jsnum \<Rightarrow> jsnum" where
  "jneg (Fin a) = Fin (- a)"
| "jneg PInf = NInf"
| "jneg NInf = PInf"
| "jneg NaN = NaN"

fun jadd :: "jsnum \<Rightarrow> jsnum \<Rightarrow> jsnum" where
  "jadd NaN b = NaN"
| "jadd a NaN = NaN"
| "jadd (Fin a) (Fin b) = rnd (a + b)"
| "jadd PInf NInf = NaN"
| "jadd NInf PInf = NaN"
| "jadd PInf b = PInf"
| "jadd NInf b = NInf"
| "jadd (Fin a) b = b"

definition jsub :: "jsnum \<Rightarrow> jsnum \<Rightarrow> jsnum" where
  "jsub a b = jadd a (jneg b)"

fun jmul :: "jsnum \<Rightarrow> jsnum \<Rightarrow> jsnum" where
  "jmul NaN b = NaN"
| "jmul a NaN = NaN"
| "jmul (Fin a) (Fin b) = rnd (a * b)"
| "jmul (Fin a) PInf = (if a = 0 then NaN else signed_inf (0 < a))"
| "jmul (Fin a) NInf = (if a = 0 then NaN else signed_inf (a < 0))"
| "jmul PInf (Fin b) = (if b = 0 then NaN else signed_inf (0 < b))"
| "jmul NInf (Fin b) = (if b = 0 then NaN else signed_inf (b < 0))"
| "jmul PInf PInf = PInf"
| "jmul NInf NInf = PInf"
| "jmul PInf NInf = NInf"
| "jmul NInf PInf = NInf"

fun jdiv :: "jsnum \<Rightarrow> jsnum \<Rightarrow> jsnum" where
  "jdiv NaN b = NaN"
| "jdiv a NaN = NaN"
| "jdiv (Fin a) (Fin b) =
     (if b = 0 then (if a = 0 then NaN else signed_inf (0 < a)) else rnd (a / b))"
| "jdiv (Fin a) b = Fin 0"
| "jdiv PInf (Fin b) = signed_inf (0 \<le> b)"
| "jdiv NInf (Fin b) = signed_inf (b < 0)"
| "jdiv a b = NaN"

fun jsqrt :: "jsnum \<Rightarrow> jsnum" where
  "jsqrt (Fin a) = (if a < 0 then NaN else rnd (sqrt a))"
| "jsqrt PInf = PInf"
| "jsqrt NInf = NaN"
| "jsqrt NaN = NaN"

text \<open>\<^verbatim>\<open>Math.floor\<close>: the floor of a double is a double, nothing is rounded.\<close>

fun jfloor :: "jsnum \<Rightarrow> jsnum" where
  "jfloor (Fin a) = Fin (of_int \<lfloor>a\<rfloor>)"
| "jfloor b = b"

text \<open>
  \<^verbatim>\<open>a < b\<close> on numbers: false whenever an operand is NaN.
\<close>

fun jless :: "jsnum \<Rightarrow> jsnum \<Rightarrow> bool" where
  "jless NaN b = False"
| "jless a NaN = False"
| "jless (Fin a) (Fin b) = (a < b)"
| "jless NInf NInf = False"
| "jless NInf b = True"
| "jless a NInf = False"
| "jless PInf b = False"
| "jless (Fin a) PInf = True"

text \<open>
  The values a parsed row holds: parseCSV stores a number where parseFloat succeeds, the
  trimmed text otherwise, and \<^verbatim>\<open>undefined\<close> for a column a short line does not reach.
\<close>

datatype jsval = JUndefined | JNull | JNum jsnum | JStr string

fun truthy :: "jsval \<Rightarrow> bool" where
  "truthy JUndefined = False"
| "truthy JNull = False"
| "truthy (JNum (Fin a)) = (a \<noteq> 0)"
| "truthy (JNum NaN) = False"
| "truthy (JNum b) = True"
| "truthy (JStr s) = (s \<noteq> [])"

text \<open>\<^verbatim>\<open>a || b\<close>: the left operand when it is truthy, the right one otherwise.\<close>

definition js_or :: "jsval \<Rightarrow> jsval \<Rightarrow> jsval" where
  "js_or a b = (if truthy a then a else b)"

text \<open>
  The built-in operations on text that the code calls are not code of this repository:
  the conversion of a text to a number (the StringToNumber grammar), \<^verbatim>\<open>toUpperCase\<close> and
  \<^verbatim>\<open>trim\<close> (both defined over all of Unicode). They are the fields of an engine that the
  functions below receive, and every theorem stated for an engine \<open>eng\<close> holds whatever
  these three operations are.
\<close>

record engine =
  stringToNumber :: "string \<Rightarrow> jsnum"
  toUpperCase :: "string \<Rightarrow> string"
  trim :: "string \<Rightarrow> string"

text \<open>The conversion of a value to a number.\<close>

fun toNumber :: "engine \<Rightarrow> jsval \<Rightarrow> jsnum" where
  "toNumber eng JUndefined = NaN"
| "toNumber eng JNull = Fin 0"
| "toNumber eng (JNum a) = a"
| "toNumber eng (JStr s) = stringToNumber eng s"

definition isNaN :: "engine \<Rightarrow> jsval \<Rightarrow> bool" where
  "isNaN eng v = (toNumber eng v = NaN)"

section \<open>Rows\<close>

text \<open>
  A row is an object with text keys: an association list in the order Object.keys
  enumerates it. Reading a key the object lacks gives \<^verbatim>\<open>undefined\<close>.
\<close>

type_synonym row = "(string \<times> jsval) list"

definition get_prop :: "row \<Rightarrow> string \<Rightarrow> jsval" where
  "get_prop d k = (case map_of d k of None \<Rightarrow> JUndefined | Some v \<Rightarrow> v)"

definition hasOwnProperty :: "row \<Rightarrow> string \<Rightarrow> bool" where
  "hasOwnProperty d k = (map_of d k \<noteq> None)"

text \<open>\<^verbatim>\<open>key.includes(pat)\<close>: \<open>pat\<close> occurs in \<open>key\<close> as a contiguous run.\<close>

fun includes_str :: "string \<Rightarrow> string \<Rightarrow> bool" where
  "includes_str [] pat = (pat = [])"
| "includes_str (c # cs) pat = (take (length pat) (c # cs) = pat \<or> includes_str cs pat)"

section \<open>Statistics engine (correlation-visualization.js)\<close>

text \<open>
  getColumnName: the first key of the sample that contains the variable name or its upper
  case; \<^verbatim>\<open>null\<close> when there is none.
\<close>

definition getColumnName :: "engine \<Rightarrow> row \<Rightarrow> string \<Rightarrow> string option" where
  "getColumnName eng sample varName =
     List.find (\<lambda>key. includes_str key varName \<or> includes_str key (toUpperCase eng varName))
       (map fst sample)"

text \<open>
  The two unit suffixes extractValue tries; the first is the UTF-8 text of the Chinese
  for "micrograms per cubic metre" in parentheses.
\<close>

definition suffix_ug :: string where
  "suffix_ug = ''('' @ [CHR 0xE5, CHR 0xBE, CHR 0xAE, CHR 0xE5, CHR 0x85, CHR 0x8B,
     CHR 0xE6, CHR 0xAF, CHR 0x8F, CHR 0xE7, CHR 0xAB, CHR 0x8B, CHR 0xE6, CHR 0x96,
     CHR 0xB9, CHR 0xE7, CHR 0xB1, CHR 0xB3] @ '')''"

definition suffix_mg :: string where
  "suffix_mg = ''(mg/m3)''"

text \<open>
  extractValue. Indexing a row with the \<^verbatim>\<open>null\<close> getColumnName returned reads the key
  "null". The result \<open>None\<close> is the \<^verbatim>\<open>null\<close> the function returns.
\<close>

definition extractValue :: "engine \<Rightarrow> row \<Rightarrow> string \<Rightarrow> jsnum option" where
  "extractValue eng d varName =
     (let v = js_or (js_or (js_or (get_prop d varName)
                (get_prop d (case getColumnName eng d varName of None \<Rightarrow> ''null'' | Some k \<Rightarrow> k)))
                (get_prop d (varName @ suffix_ug)))
                (get_prop d (varName @ suffix_mg))
      in if v = JNull \<or> v = JUndefined \<or> isNaN eng v then None else Some (toNumber eng v))"

text \<open>
  d3.mean skips NaN entries and divides the sum of the others by their number; with
  nothing to average it returns \<^verbatim>\<open>undefined\<close>, which the subtraction in
  \<open>correlation\<close> reads as NaN.
\<close>

definition d3_mean :: "jsnum list \<Rightarrow> jsnum" where
  "d3_mean xs =
     (let vs = filter (\<lambda>v. v \<noteq> NaN) xs
      in if vs = [] then NaN else jdiv (foldl jadd (Fin 0) vs) (Fin (real (length vs))))"

text \<open>
  The loop of \<open>correlation\<close>: numerator, sumSqX and sumSqY after all indices, for sequences
  of one length.
\<close>

definition deviation_sums :: "jsnum list \<Rightarrow> jsnum list \<Rightarrow> jsnum \<times> jsnum \<times> jsnum" where
  "deviation_sums x y =
     (let meanX = d3_mean x; meanY = d3_mean y
      in foldl (\<lambda>(numerator, sumSqX, sumSqY) (xi, yi).
                  let dx = jsub xi meanX; dy = jsub yi meanY
                  in (jadd numerator (jmul dx dy), jadd sumSqX (jmul dx dx),
                      jadd sumSqY (jmul dy dy)))
           (Fin 0, Fin 0, Fin 0) (zip x y))"

definition correlation :: "jsnum list \<Rightarrow> jsnum list \<Rightarrow> jsnum" where
  "correlation x y =
     (if length x \<noteq> length y \<or> length x = 0 then Fin 0
      else (case deviation_sums x y of (numerator, sumSqX, sumSqY) \<Rightarrow>
        let denominator = jsqrt (jmul sumSqX sumSqY)
        in if denominator = Fin 0 then Fin 0 else jdiv numerator denominator))"

text \<open>The values of one variable: the records where it is \<^verbatim>\<open>null\<close> are filtered out.\<close>

definition column_values :: "engine \<Rightarrow> row list \<Rightarrow> string \<Rightarrow> jsnum list" where
  "column_values eng data v = List.map_filter (\<lambda>d. extractValue eng d v) data"

definition computeCorrelationMatrix ::
  "engine \<Rightarrow> row list \<Rightarrow> string list \<Rightarrow> jsnum list list" where
  "computeCorrelationMatrix eng data variables =
     map (\<lambda>i. map (\<lambda>j. if i = j then Fin 1
                        else correlation (column_values eng data (variables ! i))
                                         (column_values eng data (variables ! j)))
                [0..<length variables])
         [0..<length variables]"

subsection \<open>The cell of the matrix in the words of the specification\<close>

text \<open>
  The specification speaks of the records in which a variable resolves to a numeric
  value. The names under which a record may hold a variable are the four extractValue
  tries, in its order; the variable's cell is the first of them that the record holds
  (a cell that is neither \<^verbatim>\<open>undefined\<close> nor \<^verbatim>\<open>null\<close>), and the variable resolves to a
  numeric value when that cell is a number other than NaN. Whether a cell is truthy
  plays no part in this reading.
\<close>

definition candidate_cells :: "engine \<Rightarrow> row \<Rightarrow> string \<Rightarrow> jsval list" where
  "candidate_cells eng d varName =
     [get_prop d varName,
      get_prop d (case getColumnName eng d varName of None \<Rightarrow> ''null'' | Some k \<Rightarrow> k),
      get_prop d (varName @ suffix_ug),
      get_prop d (varName @ suffix_mg)]"

definition present :: "jsval \<Rightarrow> bool" where
  "present c = (c \<noteq> JUndefined \<and> c \<noteq> JNull)"

definition resolved_cell :: "engine \<Rightarrow> row \<Rightarrow> string \<Rightarrow> jsval" where
  "resolved_cell eng d varName =
     (case List.find present (candidate_cells eng d varName) of
        None \<Rightarrow> JUndefined
      | Some c \<Rightarrow> c)"

definition numeric_value :: "jsval \<Rightarrow> jsnum option" where
  "numeric_value c = (case c of JNum n \<Rightarrow> if n = NaN then None else Some n | _ \<Rightarrow> None)"

definition resolved_number :: "engine \<Rightarrow> row \<Rightarrow> string \<Rightarrow> jsnum option" where
  "resolved_number eng d varName = numeric_value (resolved_cell eng d varName)"

text \<open>The numeric values of one variable over the records, each record on its own.\<close>

definition resolved_column :: "engine \<Rightarrow> row list \<Rightarrow> string \<Rightarrow> jsnum list" where
  "resolved_column eng data v = List.map_filter (\<lambda>d. resolved_number eng d v) data"

text \<open>
  The pairs of values of the records where both variables resolve to a numeric value, and
  the Pearson coefficient over them.
\<close>

definition paired_values ::
  "engine \<Rightarrow> row list \<Rightarrow> string \<Rightarrow> string \<Rightarrow> (jsnum \<times> jsnum) list" where
  "paired_values eng data vi vj =
     List.map_filter
       (\<lambda>d. case (resolved_number eng d vi, resolved_number eng d vj) of
               (Some a, Some b) \<Rightarrow> Some (a, b)
             | _ \<Rightarrow> None)
       data"

definition paired_pearson :: "engine \<Rightarrow> row list \<Rightarrow> string \<Rightarrow> string \<Rightarrow> jsnum" where
  "paired_pearson eng data vi vj =
     correlation (map fst (paired_values eng data vi vj)) (map snd (paired_values eng data vi vj))"




section \<open>Spatial sampler\<close>

text \<open>
  \<^verbatim>\<open>data.filter((d, i) => P(i))\<close>: the elements whose index satisfies \<open>P\<close>, in their order.
\<close>

definition filter_index :: "(nat \<Rightarrow> bool) \<Rightarrow> 'a list \<Rightarrow> 'a list" where
  "filter_index P xs = map fst (filter (\<lambda>(d, i). P i) (zip xs [0..<length xs]))"

text \<open>\<^verbatim>\<open>Math.ceil(n / m)\<close> for counts \<open>n\<close> and \<open>m\<close> with \<open>m\<close> positive.\<close>

definition ceil_div :: "nat \<Rightarrow> nat \<Rightarrow> nat" where
  "ceil_div n m = (n + m - 1) div m"

text \<open>
  The fixed-stride reduction the samplers share:
  \<^verbatim>\<open>step = Math.ceil(data.length / maxPoints); data.filter((d, i) => i % step === 0)\<close>.
  With \<open>maxPoints = 0\<close> the step is Infinity and \<^verbatim>\<open>i % Infinity\<close> is \<open>i\<close>: index 0 alone is kept.
\<close>

definition stride :: "'a list \<Rightarrow> nat \<Rightarrow> 'a list" where
  "stride data maxPoints =
     (if maxPoints = 0 then filter_index (\<lambda>i. i = 0) data
      else filter_index (\<lambda>i. i mod ceil_div (length data) maxPoints = 0) data)"

text \<open>sampleData of data-loader.js.\<close>

definition sampleData_loader :: "'a list \<Rightarrow> nat \<Rightarrow> 'a list" where
  "sampleData_loader data maxPoints =
     (if length data \<le> maxPoints then data else stride data maxPoints)"

text \<open>
  A point of the wind field: its coordinates (a missing coordinate is NaN once it enters
  the arithmetic) and its other properties.
\<close>

record geo_point =
  lat :: jsnum
  lon :: jsnum
  others :: row

text \<open>
  d3.extent: the least and the greatest of the entries that are numbers; NaN entries are
  skipped. With no number at all both bounds are \<^verbatim>\<open>undefined\<close>, which the arithmetic
  that follows reads as NaN.
\<close>

definition extent_step :: "(jsnum \<times> jsnum) option \<Rightarrow> jsnum \<Rightarrow> (jsnum \<times> jsnum) option" where
  "extent_step acc v =
     (case acc of
        None \<Rightarrow> if v = NaN then None else Some (v, v)
      | Some (lo, hi) \<Rightarrow> Some (if jless v lo then v else lo, if jless hi v then v else hi))"

definition d3_extent :: "jsnum list \<Rightarrow> jsnum \<times> jsnum" where
  "d3_extent vs = (case foldl extent_step None vs of None \<Rightarrow> (NaN, NaN) | Some r \<Rightarrow> r)"

definition gridSize :: nat where
  "gridSize = 50"

text \<open>\<^verbatim>\<open>Math.floor((coordinate - range[0]) / cellSize)\<close>, with \<open>bounds\<close> the pair d3.extent returned.\<close>

definition grid_index :: "jsnum \<Rightarrow> jsnum \<times> jsnum \<Rightarrow> jsnum" where
  "grid_index coordinate bounds =
     (let cellSize = jdiv (jsub (snd bounds) (fst bounds)) (Fin (real gridSize))
      in jfloor (jdiv (jsub coordinate (fst bounds)) cellSize))"

text \<open>
  The key of a point's cell. The source writes it as the text "gridX,gridY"; two keys are
  equal exactly when both indices are, so the pair of indices stands for the text.
\<close>

definition grid_key :: "geo_point list \<Rightarrow> geo_point \<Rightarrow> jsnum \<times> jsnum" where
  "grid_key data d =
     (grid_index (lat d) (d3_extent (map lat data)),
      grid_index (lon d) (d3_extent (map lon data)))"

text \<open>
  The Map filled by the forEach loop, as the list of its entries in insertion order: a
  point enters only when its cell has no entry yet.
\<close>

definition grid_add ::
  "geo_point list \<Rightarrow> ((jsnum \<times> jsnum) \<times> geo_point) list \<Rightarrow> geo_point
   \<Rightarrow> ((jsnum \<times> jsnum) \<times> geo_point) list" where
  "grid_add data grid d =
     (if map_of grid (grid_key data d) \<noteq> None then grid else grid @ [(grid_key data d, d)])"

text \<open>sampleData of windfield-canvas-visualization.js.\<close>

definition sampleData_windfield :: "geo_point list \<Rightarrow> nat \<Rightarrow> geo_point list" where
  "sampleData_windfield data maxPoints =
     (if length data \<le> maxPoints then data
      else let sampledData = map snd (foldl (grid_add data) [] data)
           in if maxPoints < length sampledData then stride sampledData maxPoints
              else sampledData)"

section \<open>Time-series downsampler (data-loader.js)\<close>

text \<open>
  \<^verbatim>\<open>i % sampleRate === 0\<close> for an index and an integer rate: the remainder by zero is NaN,
  which is not 0.
\<close>

definition rem_is_zero :: "nat \<Rightarrow> int \<Rightarrow> bool" where
  "rem_is_zero i sampleRate = (sampleRate \<noteq> 0 \<and> int i mod \<bar>sampleRate\<bar> = 0)"

definition sampleTimeseriesData :: "'a list \<Rightarrow> int \<Rightarrow> 'a list" where
  "sampleTimeseriesData data sampleRate =
     (if length data \<le> 10000 then data
      else filter_index (\<lambda>i. rem_is_zero i sampleRate) data)"

section \<open>Field resolver (data-loader.js)\<close>

record extracted_point =
  p_lat :: jsval
  p_lon :: jsval
  p_value :: jsval
  p_date :: jsval
  p_yearMonth :: jsval
  p_temp :: jsval
  p_rh :: jsval
  p_u :: jsval
  p_v :: jsval

text \<open>
  A variable that holds a text or \<^verbatim>\<open>null\<close> is truthy when it holds a text that is not
  empty.
\<close>

definition truthy_text :: "string option \<Rightarrow> bool" where
  "truthy_text k = (case k of None \<Rightarrow> False | Some s \<Rightarrow> s \<noteq> [])"

definition possibleKeys :: "engine \<Rightarrow> string \<Rightarrow> string list" where
  "possibleKeys eng pollutantName =
     [pollutantName, trim eng pollutantName, '' '' @ pollutantName, pollutantName @ '' '',
      pollutantName @ ''('', '' '' @ pollutantName @ ''('']"

definition matchKey :: "engine \<Rightarrow> row \<Rightarrow> string \<Rightarrow> string option" where
  "matchKey eng first pollutantName =
     (let direct = List.find (hasOwnProperty first) (possibleKeys eng pollutantName)
      in if truthy_text direct then direct
         else (case List.find (\<lambda>key. includes_str key (trim eng pollutantName)) (map fst first) of
                 None \<Rightarrow> direct
               | Some key \<Rightarrow> Some key))"

definition project :: "string \<Rightarrow> row \<Rightarrow> extracted_point" where
  "project matchedKey r =
     \<lparr>p_lat = get_prop r ''lat'', p_lon = get_prop r ''lon'', p_value = get_prop r matchedKey,
      p_date = get_prop r ''date'', p_yearMonth = get_prop r ''yearMonth'',
      p_temp = js_or (get_prop r ''TEMP'') (get_prop r ''TEMP(K)''),
      p_rh = js_or (get_prop r ''RH'') (get_prop r ''RH(%)''),
      p_u = js_or (get_prop r ''U'') (get_prop r ''U(m/s)''),
      p_v = js_or (get_prop r ''V'') (get_prop r ''V(m/s)'')\<rparr>"

text \<open>The filter of the last line: \<^verbatim>\<open>d.value != null && !isNaN(d.value)\<close>.\<close>

definition value_kept :: "engine \<Rightarrow> extracted_point \<Rightarrow> bool" where
  "value_kept eng d = (p_value d \<noteq> JNull \<and> p_value d \<noteq> JUndefined \<and> \<not> isNaN eng (p_value d))"

definition extractPollutantData ::
  "engine \<Rightarrow> row list \<Rightarrow> string \<Rightarrow> extracted_point list" where
  "extractPollutantData eng rawData pollutantName =
     (case rawData of
        [] \<Rightarrow> []
      | first # more_rows \<Rightarrow>
          (case matchKey eng first pollutantName of
             None \<Rightarrow> []
           | Some matchedKey \<Rightarrow>
               if matchedKey = [] then []
               else filter (value_kept eng) (map (project matchedKey) rawData)))"

subsection \<open>The extracted points in the words of the specification\<close>

text \<open>
  The resolved column: the key extractPollutantData matched on the first record, when it
  matched one and goes on to project the records.
\<close>

definition resolved_key :: "engine \<Rightarrow> row list \<Rightarrow> string \<Rightarrow> string option" where
  "resolved_key eng rawData pollutantName =
     (case rawData of
        [] \<Rightarrow> None
      | first # more_rows \<Rightarrow>
          (case matchKey eng first pollutantName of
             None \<Rightarrow> None
           | Some matchedKey \<Rightarrow> if matchedKey = [] then None else Some matchedKey))"

text \<open>A value that is non-null and numeric: a number other than NaN.\<close>

definition numeric_cell :: "jsval \<Rightarrow> bool" where
  "numeric_cell c = (case c of JNum n \<Rightarrow> n \<noteq> NaN | _ \<Rightarrow> False)"

text \<open>A cell that is not a text which the engine converts to a number.\<close>

definition text_not_numeric :: "engine \<Rightarrow> jsval \<Rightarrow> bool" where
  "text_not_numeric eng c = (case c of JStr s \<Rightarrow> stringToNumber eng s = NaN | _ \<Rightarrow> True)"

section \<open>Dataset locator and day loader (data-loader.js)\<close>

text \<open>
  What a fetch settles to: a rejection, or a response with its \<^verbatim>\<open>ok\<close> flag and its body.
  The body is held as the rows parseCSV decodes from it: parseCSV has no failing path, so
  loadCSVFile returns \<^verbatim>\<open>null\<close> exactly when the fetch rejects or the response is not ok.
\<close>

datatype response = NetworkError | Http bool "row list"

text \<open>
  The network answers a request given the requests issued before it, so a file may be
  missing at one time and present at another.
\<close>

type_synonym network = "string list \<Rightarrow> string \<Rightarrow> response"

text \<open>
  The DataLoader object. \<open>fetchLog\<close> is not a field of the source: it records the URL of
  every fetch the loader issues, in order, so that theorems can speak about them.
\<close>

record loader =
  dataCache :: "string \<rightharpoonup> row list"
  basePath :: string
  resolvedBasePath :: "string option"
  fetchLog :: "string list"

definition fetch :: "network \<Rightarrow> string \<Rightarrow> loader \<Rightarrow> response \<times> loader" where
  "fetch net url st = (net (fetchLog st) url, st\<lparr>fetchLog := fetchLog st @ [url]\<rparr>)"

text \<open>\<^verbatim>\<open>resp && resp.ok\<close>.\<close>

definition resp_ok :: "response \<Rightarrow> bool" where
  "resp_ok resp = (case resp of NetworkError \<Rightarrow> False | Http ok body \<Rightarrow> ok)"

text \<open>\<^verbatim>\<open>root.endsWith('/') ? root : (root + '/')\<close>.\<close>

definition normRoot :: "string \<Rightarrow> string" where
  "normRoot rootPath =
     (if rootPath \<noteq> [] \<and> last rootPath = CHR ''/'' then rootPath else rootPath @ ''/'')"

definition fileName :: "string \<Rightarrow> string" where
  "fileName yearMonthDay = ''CN-Reanalysis-daily-'' @ yearMonthDay @ ''00.csv''"

definition relativePath :: "string \<Rightarrow> string" where
  "relativePath yearMonthDay = take 6 yearMonthDay @ ''/'' @ fileName yearMonthDay"

definition candidates :: "loader \<Rightarrow> string list" where
  "candidates st =
     [basePath st, ''./Dataset/'', ''./dataset/'', ''./data/'', ''/Dataset/'', ''/data/'']"

text \<open>
  The for loop of resolveBasePathIfNeeded over the candidates not yet tried: the adopted
  root, or \<open>None\<close> when the loop runs out.
\<close>

fun probe :: "network \<Rightarrow> string \<Rightarrow> string list \<Rightarrow> loader \<Rightarrow> string option \<times> loader" where
  "probe net relative [] st = (None, st)"
| "probe net relative (rootPath # rest) st =
     (case fetch net (normRoot rootPath @ relative) st of
        (resp, st1) \<Rightarrow>
          if resp_ok resp
          then (Some (normRoot rootPath),
                st1\<lparr>resolvedBasePath := Some (normRoot rootPath),
                    basePath := normRoot rootPath\<rparr>)
          else probe net relative rest st1)"

text \<open>
  resolveBasePathIfNeeded after its first line: the candidates are listed, probed, and the
  function returns the adopted root or, with none adopted, \<^verbatim>\<open>this.basePath\<close>.
\<close>

definition probeCandidates :: "network \<Rightarrow> string \<Rightarrow> loader \<Rightarrow> string \<times> loader" where
  "probeCandidates net yearMonthDay st =
     (case probe net (relativePath yearMonthDay) (candidates st) st of
        (Some rootNorm, st1) \<Rightarrow> (rootNorm, st1)
      | (None, st1) \<Rightarrow> (basePath st1, st1))"

definition resolveBasePathIfNeeded :: "network \<Rightarrow> string \<Rightarrow> loader \<Rightarrow> string \<times> loader" where
  "resolveBasePathIfNeeded net yearMonthDay st =
     (case resolvedBasePath st of
        None \<Rightarrow> probeCandidates net yearMonthDay st
      | Some p \<Rightarrow> if p \<noteq> [] then (p, st) else probeCandidates net yearMonthDay st)"

text \<open>loadCSVFile: the rows, or \<open>None\<close> for the \<^verbatim>\<open>null\<close> of the catch branch.\<close>

definition csv_result :: "response \<Rightarrow> row list option" where
  "csv_result resp =
     (case resp of NetworkError \<Rightarrow> None | Http ok body \<Rightarrow> if ok then Some body else None)"

definition loadCSVFile :: "network \<Rightarrow> string \<Rightarrow> loader \<Rightarrow> row list option \<times> loader" where
  "loadCSVFile net filePath st =
     (case fetch net filePath st of (resp, st1) \<Rightarrow> (csv_result resp, st1))"

text \<open>\<^verbatim>\<open>(this.resolvedBasePath || this.basePath)\<close> followed by the month folder and the file.\<close>

definition currentRoot :: "loader \<Rightarrow> string" where
  "currentRoot st =
     (case resolvedBasePath st of None \<Rightarrow> basePath st
      | Some p \<Rightarrow> if p \<noteq> [] then p else basePath st)"

definition dayFilePath :: "loader \<Rightarrow> string \<Rightarrow> string" where
  "dayFilePath st yearMonthDay =
     currentRoot st @ take 6 yearMonthDay @ ''/'' @ fileName yearMonthDay"

text \<open>The three properties loadDayData writes on every row.\<close>

definition stamp :: "string \<Rightarrow> row \<Rightarrow> row" where
  "stamp yearMonthDay r =
     AList.update ''day'' (JStr (take 2 (drop 6 yearMonthDay)))
       (AList.update ''yearMonth'' (JStr (take 6 yearMonthDay))
         (AList.update ''date'' (JStr yearMonthDay) r))"

text \<open>The end of loadDayData after a load that succeeded: stamp, cache, return.\<close>

definition store :: "string \<Rightarrow> row list \<Rightarrow> loader \<Rightarrow> row list \<times> loader" where
  "store yearMonthDay rows st =
     (map (stamp yearMonthDay) rows,
      st\<lparr>dataCache := (dataCache st)(yearMonthDay \<mapsto> map (stamp yearMonthDay) rows)\<rparr>)"

text \<open>
  loadDayData, run from its call to its return with no other code of the loader running
  in between.
\<close>

definition loadDayData :: "network \<Rightarrow> string \<Rightarrow> loader \<Rightarrow> row list \<times> loader" where
  "loadDayData net yearMonthDay st =
     (case dataCache st yearMonthDay of
        Some data \<Rightarrow> (data, st)
      | None \<Rightarrow>
          (case loadCSVFile net (dayFilePath st yearMonthDay) st of
             (Some rows, st1) \<Rightarrow> store yearMonthDay rows st1
           | (None, st1) \<Rightarrow>
               (case resolveBasePathIfNeeded net yearMonthDay st1 of
                  (resolved, st2) \<Rightarrow>
                    (case loadCSVFile net (dayFilePath st2 yearMonthDay) st2 of
                       (Some rows, st3) \<Rightarrow> store yearMonthDay rows st3
                     | (None, st3) \<Rightarrow> ([], st3)))))"

text \<open>
  loadMonthData, the older entry point of the same class: it stores what it loaded under
  the month key whether or not the load succeeded.
\<close>

definition stamp_month :: "string \<Rightarrow> string \<Rightarrow> row \<Rightarrow> row" where
  "stamp_month firstDay yearMonth r =
     AList.update ''yearMonth'' (JStr yearMonth) (AList.update ''date'' (JStr firstDay) r)"

definition loadMonthData :: "network \<Rightarrow> string \<Rightarrow> loader \<Rightarrow> row list \<times> loader" where
  "loadMonthData net yearMonth st =
     (case dataCache st yearMonth of
        Some data \<Rightarrow> (data, st)
      | None \<Rightarrow>
          (case loadCSVFile net
                  (basePath st @ yearMonth @ ''/'' @ fileName (yearMonth @ ''01'')) st of
             (result, st1) \<Rightarrow>
               (let allData = (case result of None \<Rightarrow> []
                                | Some rows \<Rightarrow> map (stamp_month (yearMonth @ ''01'') yearMonth) rows)
                in (allData, st1\<lparr>dataCache := (dataCache st1)(yearMonth \<mapsto> allData)\<rparr>))))"

text \<open>
  The words of the specification for the locator. The URL of each candidate, in the
  listed order; the answer the \<open>k\<close>-th probe gets when the probes before it were issued
  after the requests \<open>issued\<close>; the \<open>k\<close>-th candidate is the first to succeed; every
  candidate fails.
\<close>

definition probe_urls :: "string \<Rightarrow> string list \<Rightarrow> string list" where
  "probe_urls relative cands = map (\<lambda>c. normRoot c @ relative) cands"

definition probe_answer ::
  "network \<Rightarrow> string list \<Rightarrow> string \<Rightarrow> string list \<Rightarrow> nat \<Rightarrow> response" where
  "probe_answer net issued relative cands k =
     net (issued @ take k (probe_urls relative cands)) (probe_urls relative cands ! k)"

definition probe_fails :: "network \<Rightarrow> string list \<Rightarrow> string \<Rightarrow> string list \<Rightarrow> nat \<Rightarrow> bool" where
  "probe_fails net issued relative cands i =
     (\<not> resp_ok (probe_answer net issued relative cands i))"

definition first_success ::
  "network \<Rightarrow> string list \<Rightarrow> string \<Rightarrow> string list \<Rightarrow> nat \<Rightarrow> bool" where
  "first_success net issued relative cands k =
     (k < length cands \<and> resp_ok (probe_answer net issued relative cands k) \<and>
      list_all (probe_fails net issued relative cands) [0..<k])"

definition every_probe_fails :: "network \<Rightarrow> string list \<Rightarrow> string \<Rightarrow> string list \<Rightarrow> bool" where
  "every_probe_fails net issued relative cands =
     list_all (probe_fails net issued relative cands) [0..<length cands]"

section \<open>Overlapping calls of loadDayData\<close>

text \<open>
  loadDayData is an async function: it runs until it has issued a fetch, is suspended,
  and is resumed when the fetch has settled; other calls may run while it is suspended.
  A call in progress is a task: where it is suspended, and what the fetch it waits for
  settles to (fixed when the fetch is issued). The suspensions inside a response's
  \<^verbatim>\<open>text()\<close> touch no state of the loader and are not separate points here.
\<close>

datatype task =
    Start string
  | AwaitFirst string response
  | AwaitProbe string string "string list" response
  | AwaitSecond string response
  | Done "row list"

definition second_attempt :: "network \<Rightarrow> string \<Rightarrow> loader \<Rightarrow> task \<times> loader" where
  "second_attempt net yearMonthDay st =
     (case fetch net (dayFilePath st yearMonthDay) st of
        (resp, st1) \<Rightarrow> (AwaitSecond yearMonthDay resp, st1))"

definition probe_next :: "network \<Rightarrow> string \<Rightarrow> string list \<Rightarrow> loader \<Rightarrow> task \<times> loader" where
  "probe_next net yearMonthDay cands st =
     (case cands of
        [] \<Rightarrow> second_attempt net yearMonthDay st
      | rootPath # rest \<Rightarrow>
          (case fetch net (normRoot rootPath @ relativePath yearMonthDay) st of
             (resp, st1) \<Rightarrow> (AwaitProbe yearMonthDay rootPath rest resp, st1)))"

definition stored :: "string \<Rightarrow> row list \<Rightarrow> loader \<Rightarrow> task \<times> loader" where
  "stored yearMonthDay rows st =
     (case store yearMonthDay rows st of (data, st1) \<Rightarrow> (Done data, st1))"

text \<open>One run of a task, from its suspension point to the next one or to its return.\<close>

fun resume :: "network \<Rightarrow> task \<Rightarrow> loader \<Rightarrow> task \<times> loader" where
  "resume net (Start yearMonthDay) st =
     (case dataCache st yearMonthDay of
        Some data \<Rightarrow> (Done data, st)
      | None \<Rightarrow>
          (case fetch net (dayFilePath st yearMonthDay) st of
             (resp, st1) \<Rightarrow> (AwaitFirst yearMonthDay resp, st1)))"
| "resume net (AwaitFirst yearMonthDay resp) st =
     (case csv_result resp of
        Some rows \<Rightarrow> stored yearMonthDay rows st
      | None \<Rightarrow>
          if truthy_text (resolvedBasePath st) then second_attempt net yearMonthDay st
          else probe_next net yearMonthDay (candidates st) st)"
| "resume net (AwaitProbe yearMonthDay rootPath rest resp) st =
     (if resp_ok resp
      then second_attempt net yearMonthDay
             (st\<lparr>resolvedBasePath := Some (normRoot rootPath), basePath := normRoot rootPath\<rparr>)
      else probe_next net yearMonthDay rest st)"
| "resume net (AwaitSecond yearMonthDay resp) st =
     (case csv_result resp of
        Some rows \<Rightarrow> stored yearMonthDay rows st
      | None \<Rightarrow> (Done [], st))"
| "resume net (Done data) st = (Done data, st)"

text \<open>A task resumed again and again with nothing in between, at most \<open>n\<close> times.\<close>

fun run_alone :: "nat \<Rightarrow> network \<Rightarrow> task \<Rightarrow> loader \<Rightarrow> task \<times> loader" where
  "run_alone 0 net t st = (t, st)"
| "run_alone (Suc n) net t st =
     (case resume net t st of (t1, st1) \<Rightarrow> run_alone n net t1 st1)"

text \<open>
  The \<^verbatim>\<open>availableDates.map(async (date) => ...)\<close> of loadConsecutiveDays: every call is
  started in turn and runs to its first suspension before the next one starts.
\<close>

definition launch :: "network \<Rightarrow> string list \<Rightarrow> loader \<Rightarrow> task list \<times> loader" where
  "launch net dates st =
     foldl (\<lambda>(ts, s) d. case resume net (Start d) s of (t, s1) \<Rightarrow> (ts @ [t], s1)) ([], st) dates"

text \<open>
  Several calls in progress at once: the schedule names, step by step, the task that is
  resumed next (a number that names no task is skipped).
\<close>

fun interleave :: "network \<Rightarrow> nat list \<Rightarrow> task list \<Rightarrow> loader \<Rightarrow> task list \<times> loader" where
  "interleave net [] ts st = (ts, st)"
| "interleave net (i # schedule) ts st =
     (if i < length ts
      then (case resume net (ts ! i) st of
              (t, st1) \<Rightarrow> interleave net schedule (ts[i := t]) st1)
      else interleave net schedule ts st)"

text \<open>
  A call for the date \<open>d\<close> that has missed the cache and not returned yet: it will write
  the entry of \<open>d\<close> if its load succeeds.
\<close>

fun in_flight :: "string \<Rightarrow> task \<Rightarrow> bool" where
  "in_flight d (AwaitFirst yearMonthDay resp) = (yearMonthDay = d)"
| "in_flight d (AwaitProbe yearMonthDay rootPath rest resp) = (yearMonthDay = d)"
| "in_flight d (AwaitSecond yearMonthDay resp) = (yearMonthDay = d)"
| "in_flight d (Start yearMonthDay) = False"
| "in_flight d (Done data) = False"

text \<open>A call for \<open>d\<close> that has not started, or one that has returned \<open>rows\<close>.\<close>

definition starts_or_returned :: "string \<Rightarrow> row list \<Rightarrow> task \<Rightarrow> bool" where
  "starts_or_returned d rows t = (t = Start d \<or> t = Done rows)"

section \<open>Calendar walk of loadConsecutiveDays\<close>

text \<open>
  A Date at local midnight is modelled by its day number, the days since 1970-01-01;
  \<^verbatim>\<open>setDate(getDate() - k)\<close> subtracts \<open>k\<close> and the comparison of two Dates compares their
  day numbers. The conversions between day numbers and calendar dates (the proleptic
  Gregorian calendar d3.timeParse and d3.timeFormat work in) are the usual ones by eras of
  400 years.
\<close>

definition days_from_civil :: "int \<Rightarrow> int \<Rightarrow> int \<Rightarrow> int" where
  "days_from_civil y m d =
     (let y1 = (if m \<le> 2 then y - 1 else y);
          era = y1 div 400;
          yoe = y1 - era * 400;
          doy = (153 * (if 2 < m then m - 3 else m + 9) + 2) div 5 + d - 1;
          doe = yoe * 365 + yoe div 4 - yoe div 100 + doy
      in era * 146097 + doe - 719468)"

definition civil_from_days :: "int \<Rightarrow> int \<times> int \<times> int" where
  "civil_from_days z =
     (let z1 = z + 719468;
          era = z1 div 146097;
          doe = z1 - era * 146097;
          yoe = (doe - doe div 1460 + doe div 36524 - doe div 146096) div 365;
          doy = doe - (365 * yoe + yoe div 4 - yoe div 100);
          mp = (5 * doy + 2) div 153;
          d = doy - (153 * mp + 2) div 5 + 1;
          m = (if mp < 10 then mp + 3 else mp - 9)
      in (if m \<le> 2 then yoe + era * 400 + 1 else yoe + era * 400, m, d))"

definition digit_char :: "int \<Rightarrow> char" where
  "digit_char n = char_of (48 + nat (n mod 10))"

definition pad2 :: "int \<Rightarrow> string" where
  "pad2 n = [digit_char (n div 10), digit_char n]"

definition pad4 :: "int \<Rightarrow> string" where
  "pad4 n = [digit_char (n div 1000), digit_char (n div 100), digit_char (n div 10), digit_char n]"

text \<open>d3.timeFormat("%Y%m%d"), for the years of four digits.\<close>

definition formatDate :: "int \<Rightarrow> string" where
  "formatDate z = (case civil_from_days z of (y, m, d) \<Rightarrow> pad4 y @ pad2 m @ pad2 d)"

text \<open>\<^verbatim>\<open>a < b\<close> on texts: the order of the first code unit where they differ.\<close>

fun str_less :: "string \<Rightarrow> string \<Rightarrow> bool" where
  "str_less [] [] = False"
| "str_less [] (b # bs) = True"
| "str_less (a # as) [] = False"
| "str_less (a # as) (b # bs) =
     ((of_char a :: nat) < of_char b \<or> (a = b \<and> str_less as bs))"

text \<open>
  The while loop that fills availableDates: the date is pushed, the Date is moved back
  one day, and only then is the pushed text compared with the first day of the data set.
\<close>

function date_walk :: "int \<Rightarrow> int \<Rightarrow> string list \<Rightarrow> string list" where
  "date_walk currentDate endDate dates =
     (if endDate \<le> currentDate
      then (if str_less (formatDate currentDate) ''20130101''
            then dates @ [formatDate currentDate]
            else date_walk (currentDate - 1) endDate (dates @ [formatDate currentDate]))
      else dates)"
  by pat_completeness auto
termination
  by (relation "measure (\<lambda>(currentDate, endDate, dates). nat (currentDate - endDate + 1))") auto

text \<open>
  The dates loadConsecutiveDays enumerates, for the Date \<open>start\<close> parsed from startDate:
  endDate is \<open>start\<close> moved back \<open>days\<close> days.
\<close>

definition availableDates :: "int \<Rightarrow> int \<Rightarrow> string list" where
  "availableDates start days = date_walk start (start - days) []"

section \<open>Example inputs\<close>

text \<open>
  An engine for the examples. Its operations agree with the JavaScript ones on the texts
  the examples hold: names in ASCII, and cells whose only text is "NA", which is no
  number. \<open>ascii_toUpperCase\<close> and \<open>ascii_trim\<close> are \<^verbatim>\<open>toUpperCase\<close> and \<^verbatim>\<open>trim\<close> on ASCII
  text.
\<close>

definition upper_char :: "char \<Rightarrow> char" where
  "upper_char c =
     (if 97 \<le> (of_char c :: nat) \<and> (of_char c :: nat) \<le> 122
      then char_of ((of_char c :: nat) - 32) else c)"

definition ascii_toUpperCase :: "string \<Rightarrow> string" where
  "ascii_toUpperCase s = map upper_char s"

definition is_space :: "char \<Rightarrow> bool" where
  "is_space c = ((of_char c :: nat) \<in> {9, 10, 11, 12, 13, 32})"

definition ascii_trim :: "string \<Rightarrow> string" where
  "ascii_trim s = rev (dropWhile is_space (rev (dropWhile is_space s)))"

definition example_engine :: engine where
  "example_engine =
     \<lparr>stringToNumber = (\<lambda>s. NaN), toUpperCase = ascii_toUpperCase, trim = ascii_trim\<rparr>"

text \<open>A loader as its constructor leaves it, with no override of the root.\<close>

definition new_loader :: loader where
  "new_loader = \<lparr>dataCache = Map.empty, basePath = ''./Dataset/'',
                  resolvedBasePath = None, fetchLog = []\<rparr>"

text \<open>A network on which every fetch rejects, one on which every file is missing.\<close>

definition offline :: network where
  "offline issued url = NetworkError"

definition all_missing :: network where
  "all_missing issued url = Http False []"

text \<open>A network that serves one row for every URL.\<close>

definition serves_all :: network where
  "serves_all issued url = Http True [[(''lat'', JNum (Fin 30)), (''lon'', JNum (Fin 120))]]"

text \<open>A network that has the data set under ./data/ only.\<close>

definition serves_data_dir :: network where
  "serves_data_dir issued url =
     (if take 7 url = ''./data/'' then Http True [] else Http False [])"

text \<open>
  A network whose file changes: the first request is answered with one row, every later
  one with an empty file.
\<close>

definition serves_changing :: network where
  "serves_changing issued url =
     (if issued = [] then Http True [[(''lat'', JNum (Fin 30)), (''lon'', JNum (Fin 120))]]
      else Http True [])"



text \<open>
  Four records in which PM10 and SO2 are each missing once, in different records, and
  three records that all hold both variables, the first with a PM10 of 0.
\<close>

definition misaligned_records :: "row list" where
  "misaligned_records =
     [[(''PM10'', JNum (Fin 1)), (''SO2'', JNum (Fin 2))],
      [(''PM10'', JNum (Fin 2))],
      [(''SO2'', JNum (Fin 1))],
      [(''PM10'', JNum (Fin 3)), (''SO2'', JNum (Fin 3))]]"

definition zero_records :: "row list" where
  "zero_records =
     [[(''PM10'', JNum (Fin 0)), (''SO2'', JNum (Fin 1))],
      [(''PM10'', JNum (Fin 1)), (''SO2'', JNum (Fin 2))],
      [(''PM10'', JNum (Fin 2)), (''SO2'', JNum (Fin 3))]]"

text \<open>
  Two constant columns: three times the double of 0.1 and three times the double of 0.2,
  as parseFloat returns them; and the two doubles written out.
\<close>

definition constant_tenths :: "jsnum list" where
  "constant_tenths = [rnd (1 / 10), rnd (1 / 10), rnd (1 / 10)]"

definition constant_fifths :: "jsnum list" where
  "constant_fifths = [rnd (1 / 5), rnd (1 / 5), rnd (1 / 5)]"

definition tenth :: real where
  "tenth = 3602879701896397 / 2 ^ 55"

definition fifth :: real where
  "fifth = 3602879701896397 / 2 ^ 54"

text \<open>
  Three points of a wind field; the last lies on the upper latitude bound and on the
  upper longitude bound of the three.
\<close>

definition boundary_points :: "geo_point list" where
  "boundary_points =
     [\<lparr>lat = Fin 0, lon = Fin 0, others = []\<rparr>,
      \<lparr>lat = Fin 25, lon = Fin 30, others = []\<rparr>,
      \<lparr>lat = Fin 50, lon = Fin 100, others = []\<rparr>]"

text \<open>
  The rows of the specification's scenario: a decorated PM2.5 column, one numeric cell
  and one cell "NA"; the coordinates are the doubles of 30.1 and 120.2. The second
  example holds an infinite cell, as parseFloat returns for the text "Infinity", the
  third an empty cell (parseCSV keeps the empty text).
\<close>

definition scenario_rows :: "row list" where
  "scenario_rows =
     [[(''lat'', JNum (rnd (301 / 10))), (''lon'', JNum (rnd (1202 / 10))),
       (''PM2.5'' @ suffix_ug, JNum (Fin 55)), (''date'', JNum (Fin 20130101))],
      [(''lat'', JNum (rnd (301 / 10))), (''lon'', JNum (rnd (1202 / 10))),
       (''PM2.5'' @ suffix_ug, JStr ''NA''), (''date'', JNum (Fin 20130101))]]"

definition infinite_rows :: "row list" where
  "infinite_rows =
     [[(''lat'', JNum (rnd (301 / 10))), (''lon'', JNum (rnd (1202 / 10))),
       (''PM2.5'', JNum PInf)]]"

definition empty_cell_rows :: "row list" where
  "empty_cell_rows =
     [[(''lat'', JNum (rnd (301 / 10))), (''lon'', JNum (rnd (1202 / 10))),
       (''PM2.5'', JStr [])]]"

text \<open>
  The one row \<open>serves_all\<close> serves, as loadDayData returns and caches it for 2013-01-01,
  the URL of that day under the default root, and the loader with that day cached.
\<close>

definition stamped_row :: row where
  "stamped_row =
     [(''lat'', JNum (Fin 30)), (''lon'', JNum (Fin 120)), (''date'', JStr ''20130101''),
      (''yearMonth'', JStr ''201301''), (''day'', JStr ''01'')]"

definition day_url :: string where
  "day_url = ''./Dataset/201301/CN-Reanalysis-daily-2013010100.csv''"

definition cached_loader :: loader where
  "cached_loader =
     new_loader\<lparr>dataCache := [''20130101'' \<mapsto> [stamped_row]], fetchLog := [day_url]\<rparr>"

section \<open>Properties of the rounding\<close>

lemma rhe_of_int: "rhe (of_int n) = n"
  by (simp add: rhe_def)

lemma ulp_exponent_eq:
  assumes "2 powr of_int (e + 52) \<le> \<bar>r\<bar>" "\<bar>r\<bar> < 2 powr of_int (e + 53)" "- 1074 \<le> e"
  shows "ulp_exponent r = e"
proof -
  have pos: "0 < \<bar>r\<bar>"
    using assms(1) powr_gt_zero[of 2 "of_int (e + 52)"] by linarith
  have "\<lfloor>log 2 \<bar>r\<bar>\<rfloor> = e + 52"
    using assms(1,2) floor_log_eq_powr_iff[OF pos, of 2 "e + 52"] by (simp add: add.commute)
  then show ?thesis
    using assms(3) by (simp add: ulp_exponent_def)
qed

lemma rnd_normal:
  assumes "2 powr of_int (e + 52) \<le> \<bar>r\<bar>" "\<bar>r\<bar> < 2 powr of_int (e + 53)" "- 1074 \<le> e"
  shows "rnd r =
     (let v = of_int (rhe (r / 2 powr of_int e)) * 2 powr of_int e
      in if 2 ^ 1024 \<le> \<bar>v\<bar> then signed_inf (0 < r) else Fin v)"
proof -
  have "0 < \<bar>r\<bar>"
    using assms(1) powr_gt_zero[of 2 "of_int (e + 52)"] by linarith
  then have "r \<noteq> 0"
    by simp
  then show ?thesis
    by (simp add: rnd_def ulp_exponent_eq[OF assms])
qed

lemma rnd_dyadic:
  assumes int: "x * 2 ^ k \<in> \<int>" and small: "\<bar>x * 2 ^ k\<bar> < 2 ^ 53" and k: "k \<le> 1074"
  shows "rnd x = Fin x"
proof (cases "x = 0")
  case True
  then show ?thesis by (simp add: rnd_def)
next
  case False
  from int obtain n :: int where n: "x * 2 ^ k = of_int n"
    by (auto elim: Ints_cases)
  define E where "E = ulp_exponent x"
  have x: "x = of_int n * 2 powr (- real k)"
    using n by (simp add: powr_minus powr_realpow field_simps)
  have absx: "\<bar>x\<bar> < 2 powr (53 - real k)"
  proof -
    have "\<bar>x\<bar> * 2 ^ k < 2 ^ 53"
      using small by (simp add: abs_mult)
    then have "\<bar>x\<bar> < 2 ^ 53 / 2 ^ k"
      by (simp add: pos_less_divide_eq)
    then show ?thesis
      by (simp add: powr_diff powr_realpow)
  qed
  have "log 2 \<bar>x\<bar> < 53 - real k"
    using absx False by (simp add: log_less_iff)
  then have "\<lfloor>log 2 \<bar>x\<bar>\<rfloor> < 53 - int k"
    by (simp add: floor_less_iff)
  then have E: "E \<le> - int k"
    using k by (simp add: E_def ulp_exponent_def)
  define m where "m = nat (- int k - E)"
  have m: "int m = - int k - E"
    using E by (simp add: m_def)
  have scaled: "x / 2 powr of_int E = of_int (n * 2 ^ m)"
  proof -
    have "x / 2 powr of_int E = of_int n * 2 powr (- real k - of_int E)"
      by (simp add: x powr_diff)
    also have "- real k - of_int E = real m"
      using m by linarith
    finally show ?thesis
      by (simp add: powr_realpow)
  qed
  have unscaled: "of_int (n * 2 ^ m) * 2 powr of_int E = x"
  proof -
    have "of_int (n * 2 ^ m) * 2 powr of_int E = of_int n * (2 powr real m * 2 powr of_int E)"
      by (simp add: powr_realpow)
    also have "2 powr real m * 2 powr of_int E = 2 powr (- real k)"
    proof -
      have "real m + of_int E = - real k"
        using m by linarith
      then show ?thesis
        by (simp flip: powr_add)
    qed
    finally show ?thesis
      by (simp add: x)
  qed
  have "\<bar>x\<bar> < 2 ^ 1024"
  proof -
    have "\<bar>x\<bar> \<le> \<bar>x\<bar> * 2 ^ k"
      by (simp add: mult_le_cancel_left1)
    also have "\<dots> < 2 ^ 53"
      using small by (simp add: abs_mult)
    also have "\<dots> \<le> (2::real) ^ 1024"
      by (rule power_increasing) simp_all
    finally show ?thesis .
  qed
  then show ?thesis
    using False scaled unscaled
    by (simp add: rnd_def E_def[symmetric] rhe_of_int del: of_int_mult of_int_power)
qed

lemma powr_neg_nat: "2 powr (- real k) = 1 / (2::real) ^ k"
  by (simp add: powr_minus_divide powr_realpow)

lemma rnd_down:
  assumes "2 ^ 52 \<le> \<bar>r\<bar> * 2 ^ k" "\<bar>r\<bar> * 2 ^ k < 2 ^ 53" "k \<le> 1074"
  shows "rnd r = Fin (of_int (rhe (r * 2 ^ k)) / 2 ^ k)"
proof -
  have lo: "2 powr of_int (- int k + 52) \<le> \<bar>r\<bar>"
  proof -
    have "2 powr of_int (- int k + 52) = (2::real) powr 52 / 2 powr real k"
      by (simp add: powr_diff)
    then have "2 powr of_int (- int k + 52) = 2 ^ 52 / (2::real) ^ k"
      by (simp add: powr_realpow)
    then show ?thesis
      using assms(1) by (simp add: pos_divide_le_eq)
  qed
  have hi: "\<bar>r\<bar> < 2 powr of_int (- int k + 53)"
  proof -
    have "2 powr of_int (- int k + 53) = (2::real) powr 53 / 2 powr real k"
      by (simp add: powr_diff)
    then have "2 powr of_int (- int k + 53) = 2 ^ 53 / (2::real) ^ k"
      by (simp add: powr_realpow)
    then show ?thesis
      using assms(2) by (simp add: pos_less_divide_eq)
  qed
  have e: "- 1074 \<le> - int k"
    using assms(3) by simp
  have r: "r / 2 powr of_int (- int k) = r * 2 ^ k"
    by (simp add: powr_neg_nat)
  have p: "2 powr of_int (- int k) = 1 / (2::real) ^ k"
    by (simp add: powr_neg_nat)
  have near: "\<bar>of_int (rhe (r * 2 ^ k)) - r * 2 ^ k\<bar> \<le> 1"
    by (simp add: rhe_def)
  have "\<bar>of_int (rhe (r * 2 ^ k)) :: real\<bar> \<le> \<bar>r * 2 ^ k\<bar> + 1"
    using near by linarith
  also have "\<dots> < 2 ^ 53 + 1"
    using assms(2) by (simp add: abs_mult)
  finally have "\<bar>of_int (rhe (r * 2 ^ k)) / 2 ^ k :: real\<bar> < (2 ^ 53 + 1) / 2 ^ k"
    by (simp add: divide_strict_right_mono)
  also have "\<dots> \<le> 2 ^ 53 + 1"
    by (simp add: divide_le_eq_1 field_simps)
  also have "\<dots> < (2::real) ^ 1024"
    by simp
  finally have "\<not> 2 ^ 1024 \<le> \<bar>of_int (rhe (r * 2 ^ k)) / 2 ^ k :: real\<bar>"
    by simp
  then show ?thesis
    using rnd_normal[OF lo hi e] unfolding r p by (simp add: Let_def)
qed

lemma rnd_up:
  assumes "2 ^ 52 * 2 ^ k \<le> \<bar>r\<bar>" "\<bar>r\<bar> < 2 ^ 53 * 2 ^ k"
  shows "rnd r =
     (if 2 ^ 1024 \<le> \<bar>of_int (rhe (r / 2 ^ k)) * 2 ^ k :: real\<bar> then signed_inf (0 < r)
      else Fin (of_int (rhe (r / 2 ^ k)) * 2 ^ k))"
proof -
  have lo: "2 powr of_int (int k + 52) \<le> \<bar>r\<bar>"
    using assms(1) by (simp add: powr_add powr_realpow mult.commute)
  have hi: "\<bar>r\<bar> < 2 powr of_int (int k + 53)"
    using assms(2) by (simp add: powr_add powr_realpow mult.commute)
  have e: "- 1074 \<le> int k"
    by simp
  show ?thesis
    using rnd_normal[OF lo hi e] by (simp add: powr_realpow Let_def)
qed

text \<open>Results that are multiples of a quarter, below \<open>2\<^sup>5\<^sup>1\<close>, are not rounded.\<close>

lemmas rnd_small = rnd_dyadic[where k = 0, simplified] rnd_dyadic[where k = 1, simplified]
  rnd_dyadic[where k = 2, simplified]

text \<open>A result beyond the largest double is an infinity.\<close>

lemma rnd_overflow: "rnd (2 ^ 1024) = PInf"
  using rnd_up[of 972 "2 ^ 1024"] by (simp add: rhe_def signed_inf_def)

section \<open>Properties of the statistics engine\<close>

subsection \<open>extractValue on plain cells\<close>






lemma column_values_Nil: "column_values eng [] v = []"
  by (simp add: column_values_def List.map_filter_def)

lemma column_values_Cons:
  "column_values eng (d # data) v =
     (case extractValue eng d v of None \<Rightarrow> column_values eng data v
      | Some a \<Rightarrow> a # column_values eng data v)"
  by (simp add: column_values_def List.map_filter_def split: option.splits)

lemma resolved_column_Nil: "resolved_column eng [] v = []"
  by (simp add: resolved_column_def List.map_filter_def)

lemma resolved_column_Cons:
  "resolved_column eng (d # data) v =
     (case resolved_number eng d v of None \<Rightarrow> resolved_column eng data v
      | Some a \<Rightarrow> a # resolved_column eng data v)"
  by (simp add: resolved_column_def List.map_filter_def split: option.splits)

lemma paired_values_Nil: "paired_values eng [] vi vj = []"
  by (simp add: paired_values_def List.map_filter_def)

lemma paired_values_Cons:
  "paired_values eng (d # data) vi vj =
     (case (resolved_number eng d vi, resolved_number eng d vj) of
        (Some a, Some b) \<Rightarrow> (a, b) # paired_values eng data vi vj
      | _ \<Rightarrow> paired_values eng data vi vj)"
  by (simp add: paired_values_def List.map_filter_def split: option.splits)


lemma matrix_cell:
  "i < length variables \<Longrightarrow> j < length variables \<Longrightarrow> i \<noteq> j \<Longrightarrow>
   computeCorrelationMatrix eng data variables ! i ! j =
     correlation (column_values eng data (variables ! i)) (column_values eng data (variables ! j))"
  by (simp add: computeCorrelationMatrix_def)

subsection \<open>The example records\<close>

lemmas extract_simps =
  extractValue_def get_prop_def js_or_def isNaN_def getColumnName_def example_engine_def
  ascii_toUpperCase_def upper_char_def suffix_ug_def suffix_mg_def Let_def

lemmas resolve_simps =
  resolved_number_def resolved_cell_def candidate_cells_def present_def numeric_value_def
  get_prop_def getColumnName_def example_engine_def ascii_toUpperCase_def upper_char_def
  suffix_ug_def suffix_mg_def










text \<open>
  When the two columns lose the same number of values in different records, the guard
  does not fire and values of different records are paired: here the cell is 1/2, the
  coefficient over the two records that hold both variables is 1.
\<close>

lemma correlationMatrix_cell_misaligned:
  "computeCorrelationMatrix example_engine misaligned_records [''PM10'', ''SO2''] ! 0 ! 1
     = Fin (1 / 2) \<and>
   paired_pearson example_engine misaligned_records ''PM10'' ''SO2'' = Fin 1"
proof -
  have "column_values example_engine misaligned_records ''PM10'' = [Fin 1, Fin 2, Fin 3]"
    and "column_values example_engine misaligned_records ''SO2'' = [Fin 2, Fin 1, Fin 3]"
    by (simp_all add: misaligned_records_def column_values_Cons column_values_Nil extract_simps)
  moreover have "paired_values example_engine misaligned_records ''PM10'' ''SO2''
      = [(Fin 1, Fin 2), (Fin 3, Fin 3)]"
    by (simp add: misaligned_records_def paired_values_Cons paired_values_Nil resolve_simps)
  moreover have "correlation [Fin 1, Fin 2, Fin 3] [Fin 2, Fin 1, Fin 3] = Fin (1 / 2)"
    and "correlation [Fin 1, Fin 3] [Fin 2, Fin 3] = Fin 1"
    by (simp_all add: correlation_def deviation_sums_def d3_mean_def jsub_def Let_def rnd_small)
  ultimately show ?thesis
    by (simp add: matrix_cell paired_pearson_def)
qed

text \<open>
  A cell that holds 0 is falsy: extractValue passes it over, finds no other candidate and
  returns \<^verbatim>\<open>null\<close>, so the record is filtered out of that column although the variable
  resolves to the number 0 in it. In three records that all hold both variables, the
  first with a PM10 of 0, the PM10 column has two values, the SO2 column three, and the
  cell is the 0 of the length guard; the coefficient over the three pairs is 1.
\<close>

lemma correlationMatrix_cell_zero_value:
  "column_values example_engine zero_records ''PM10'' = [Fin 1, Fin 2] \<and>
   resolved_column example_engine zero_records ''PM10'' = [Fin 0, Fin 1, Fin 2] \<and>
   column_values example_engine zero_records ''SO2'' = [Fin 1, Fin 2, Fin 3] \<and>
   computeCorrelationMatrix example_engine zero_records [''PM10'', ''SO2''] ! 0 ! 1 = Fin 0 \<and>
   paired_pearson example_engine zero_records ''PM10'' ''SO2'' = Fin 1"
proof -
  have columns: "column_values example_engine zero_records ''PM10'' = [Fin 1, Fin 2]"
    "column_values example_engine zero_records ''SO2'' = [Fin 1, Fin 2, Fin 3]"
    by (simp_all add: zero_records_def column_values_Cons column_values_Nil extract_simps)
  have resolved: "resolved_column example_engine zero_records ''PM10'' = [Fin 0, Fin 1, Fin 2]"
    by (simp add: zero_records_def resolved_column_Cons resolved_column_Nil resolve_simps)
  have pairs: "paired_values example_engine zero_records ''PM10'' ''SO2''
      = [(Fin 0, Fin 1), (Fin 1, Fin 2), (Fin 2, Fin 3)]"
    by (simp add: zero_records_def paired_values_Cons paired_values_Nil resolve_simps)
  have "correlation [Fin 0, Fin 1, Fin 2] [Fin 1, Fin 2, Fin 3] = Fin 1"
    by (simp add: correlation_def deviation_sums_def d3_mean_def jsub_def Let_def rnd_small)
  moreover have "correlation [Fin 1, Fin 2] [Fin 1, Fin 2, Fin 3] = Fin 0"
    by (simp add: correlation_def)
  ultimately show ?thesis
    by (simp add: matrix_cell paired_pearson_def columns resolved pairs)
qed



subsection \<open>Constant columns\<close>

lemma rnd_tenth: "rnd (1 / 10) = Fin tenth"
  using rnd_down[of "1 / 10" 56] by (simp add: rhe_def tenth_def)

lemma rnd_fifth: "rnd (1 / 5) = Fin fifth"
  using rnd_down[of "1 / 5" 55] by (simp add: rhe_def fifth_def)

text \<open>
  The four results that are rounded when the means of the two constant columns are
  computed: the sum of three tenths is a tie and goes up to the even significand, and
  the third of that sum is not the tenth.
\<close>

lemma rnd_three_tenths: "rnd (3 * tenth) = Fin (5404319552844596 / 2 ^ 54)"
  using rnd_down[of "3 * tenth" 54] by (simp add: rhe_def tenth_def)

lemma rnd_mean_tenths: "rnd (5404319552844596 / 2 ^ 54 / 3) = Fin (7205759403792795 / 2 ^ 56)"
  using rnd_down[of "5404319552844596 / 2 ^ 54 / 3" 56] by (simp add: rhe_def)

lemma rnd_three_fifths: "rnd (3 * fifth) = Fin (5404319552844596 / 2 ^ 53)"
  using rnd_down[of "3 * fifth" 53] by (simp add: rhe_def fifth_def)

lemma rnd_mean_fifths: "rnd (5404319552844596 / 2 ^ 53 / 3) = Fin (7205759403792795 / 2 ^ 55)"
  using rnd_down[of "5404319552844596 / 2 ^ 53 / 3" 55] by (simp add: rhe_def)

lemmas rnd_inexact =
  rnd_three_tenths[unfolded tenth_def, simplified] rnd_mean_tenths[simplified]
  rnd_three_fifths[unfolded fifth_def, simplified] rnd_mean_fifths[simplified]

lemmas rnd_exact =
  rnd_dyadic[where k = 0, simplified] rnd_dyadic[where k = 54, simplified]
  rnd_dyadic[where k = 55, simplified] rnd_dyadic[where k = 56, simplified]
  rnd_dyadic[where k = 110, simplified] rnd_dyadic[where k = 111, simplified]
  rnd_dyadic[where k = 112, simplified] rnd_dyadic[where k = 222, simplified]

lemma mean_tenths:
  "d3_mean [Fin tenth, Fin tenth, Fin tenth] = Fin (7205759403792795 / 2 ^ 56)"
  by (simp add: d3_mean_def tenth_def rnd_exact rnd_inexact)

lemma mean_fifths:
  "d3_mean [Fin fifth, Fin fifth, Fin fifth] = Fin (7205759403792795 / 2 ^ 55)"
  by (simp add: d3_mean_def fifth_def rnd_exact rnd_inexact)

lemma deviation_sums_tenths_fifths:
  "deviation_sums [Fin tenth, Fin tenth, Fin tenth] [Fin fifth, Fin fifth, Fin fifth]
     = (Fin (3 / 2 ^ 111), Fin (3 / 2 ^ 112), Fin (3 / 2 ^ 110))"
  unfolding deviation_sums_def mean_tenths mean_fifths
  by (simp add: jsub_def tenth_def fifth_def rnd_exact)

text \<open>\<open>correlation\<close> past its two guards.\<close>

lemma correlation_quotient:
  assumes "length x = length y" "x \<noteq> []" "deviation_sums x y = (numerator, sumSqX, sumSqY)"
    and "jsqrt (jmul sumSqX sumSqY) = denominator" "denominator \<noteq> Fin 0"
  shows "correlation x y = jdiv numerator denominator"
  using assms by (auto simp: correlation_def)

lemma correlation_tenths_fifths:
  "correlation [Fin tenth, Fin tenth, Fin tenth] [Fin fifth, Fin fifth, Fin fifth] = Fin 1"
proof -
  have product: "jmul (Fin (3 / 2 ^ 112)) (Fin (3 / 2 ^ 110)) = Fin (9 / 2 ^ 222)"
    by (simp add: rnd_exact)
  have "sqrt (9 / 2 ^ 222 :: real) = 3 / 2 ^ 111"
    by (rule real_sqrt_unique) (simp_all add: power2_eq_square)
  moreover have "rnd (3 / 2 ^ 111) = Fin (3 / 2 ^ 111)"
    using rnd_dyadic[of "3 / 2 ^ 111" 111] by simp
  moreover have "\<not> (9 / 2 ^ 222 :: real) < 0"
    by simp
  ultimately have root: "jsqrt (Fin (9 / 2 ^ 222)) = Fin (3 / 2 ^ 111)"
    by (simp only: jsqrt.simps if_False)
  have denominator:
    "jsqrt (jmul (Fin (3 / 2 ^ 112)) (Fin (3 / 2 ^ 110))) = Fin (3 / 2 ^ 111)"
    unfolding product root ..
  have quotient: "jdiv (Fin (3 / 2 ^ 111)) (Fin (3 / 2 ^ 111)) = Fin 1"
    by (simp add: rnd_small)
  have "correlation [Fin tenth, Fin tenth, Fin tenth] [Fin fifth, Fin fifth, Fin fifth]
      = jdiv (Fin (3 / 2 ^ 111)) (Fin (3 / 2 ^ 111))"
    by (rule correlation_quotient[OF _ _ deviation_sums_tenths_fifths denominator]) simp_all
  then show ?thesis
    by (simp only: quotient)
qed

text \<open>
  The guard on the denominator, and two constant columns whose means are computed
  exactly: there the sums of squares are 0 and the guard returns 0.
\<close>

lemma correlation_guard:
  "deviation_sums x y = (numerator, sumSqX, sumSqY) \<Longrightarrow> jsqrt (jmul sumSqX sumSqY) = Fin 0
   \<Longrightarrow> correlation x y = Fin 0"
  by (simp add: correlation_def)

lemma correlation_constant_exact_mean:
  "correlation [Fin 2, Fin 2, Fin 2] [Fin 5, Fin 5, Fin 5] = Fin 0"
  by (simp add: correlation_def deviation_sums_def d3_mean_def jsub_def Let_def rnd_small)

text \<open>A constant column of Infinity has no mean deviation: the coefficient is NaN.\<close>

lemma correlation_constant_infinite:
  "correlation [PInf, PInf] [Fin 1, Fin 1] = NaN"
  by (simp add: correlation_def deviation_sums_def d3_mean_def jsub_def Let_def rnd_small
      signed_inf_def)

text \<open>
  C8, evaluated on two constant columns, 0.1 three times and 0.2 three times: the mean
  d3.mean computes for three tenths is not the tenth (the sum is rounded up, and so is
  its third), every deviation is one unit in the last place, the sums of squares the
  loop computes are not zero, the guard on the denominator does not fire, and
  \<open>correlation\<close> returns 1 where the coefficient of two columns of zero variance is 0.
\<close>

theorem correlation_constant_columns_returns_one:
  "constant_tenths = [Fin tenth, Fin tenth, Fin tenth] \<and>
   constant_fifths = [Fin fifth, Fin fifth, Fin fifth] \<and>
   d3_mean constant_tenths = Fin (tenth + 1 / 2 ^ 56) \<and>
   deviation_sums constant_tenths constant_fifths
     = (Fin (3 / 2 ^ 111), Fin (3 / 2 ^ 112), Fin (3 / 2 ^ 110)) \<and>
   correlation constant_tenths constant_fifths = Fin 1"
proof -
  have columns: "constant_tenths = [Fin tenth, Fin tenth, Fin tenth]"
    "constant_fifths = [Fin fifth, Fin fifth, Fin fifth]"
    by (simp_all add: constant_tenths_def constant_fifths_def rnd_tenth rnd_fifth)
  have "(7205759403792795 / 2 ^ 56 :: real) = tenth + 1 / 2 ^ 56"
    by (simp add: tenth_def)
  then show ?thesis
    unfolding columns
    by (simp only: mean_tenths deviation_sums_tenths_fifths correlation_tenths_fifths
        simp_thms)
qed

theorem correlation_constant_columns_returns_one_witness:
  "correlation [rnd (1 / 10), rnd (1 / 10), rnd (1 / 10)] [rnd (1 / 5), rnd (1 / 5), rnd (1 / 5)]
     = Fin 1"
  using correlation_constant_columns_returns_one
  unfolding constant_tenths_def constant_fifths_def by blast

section \<open>Properties of the samplers\<close>

lemma length_filter_zip:
  "length xs = length js \<Longrightarrow>
   length (filter (\<lambda>(d, i). P i) (zip xs js)) = length (filter P js)"
  by (induction xs js rule: list_induct2) auto

lemma length_filter_index:
  "length (filter_index P xs) = length (filter P [0..<length xs])"
  by (simp add: filter_index_def length_filter_zip)

lemma zip_upt_nth: "zip xs [0..<length xs] = map (\<lambda>i. (xs ! i, i)) [0..<length xs]"
  by (rule nth_equalityI) auto

lemma filter_index_nth:
  "filter_index P xs = map (nth xs) (filter P [0..<length xs])"
  by (simp add: filter_index_def zip_upt_nth filter_map comp_def)

lemma div_add_mult: "0 < s \<Longrightarrow> (c + a * s) div s = a + c div (s::nat)"
  by simp

lemma ceil_div_dvd:
  assumes "0 < s" "n mod s = 0"
  shows "ceil_div n s = n div s"
proof -
  have "n + s - 1 = (s - 1) + (n div s) * s"
    using assms by (simp add: mod_eq_0_iff_dvd)
  then have "(n + s - 1) div s = n div s + (s - 1) div s"
    by (simp only: div_add_mult[OF assms(1)])
  then show ?thesis
    using assms by (simp add: ceil_div_def)
qed

lemma ceil_div_not_dvd:
  assumes "0 < s" "n mod s \<noteq> 0"
  shows "ceil_div n s = Suc (n div s)"
proof -
  have r: "0 < n mod s" "n mod s < s"
    using assms by auto
  have "n = n mod s + (n div s) * s"
    by simp
  moreover have "0 < n"
    using r(1) by (cases n) auto
  ultimately have "n + s - 1 = (n mod s - 1) + (n div s + 1) * s"
    using r by (simp add: algebra_simps)
  then have "(n + s - 1) div s = (n div s + 1) + (n mod s - 1) div s"
    by (simp only: div_add_mult[OF assms(1)])
  moreover have "(n mod s - 1) div s = 0"
    using r by simp
  ultimately show ?thesis
    by (simp add: ceil_div_def)
qed

lemma ceil_div_Suc:
  assumes "0 < s"
  shows "ceil_div (Suc n) s = (if n mod s = 0 then Suc (ceil_div n s) else ceil_div n s)"
proof -
  have "ceil_div (Suc n) s = Suc (n div s)"
    using assms by (simp add: ceil_div_def)
  then show ?thesis
    using assms by (simp add: ceil_div_dvd ceil_div_not_dvd)
qed

text \<open>The indices below \<open>n\<close> that a stride \<open>s\<close> keeps number \<open>\<lceil>n / s\<rceil>\<close>.\<close>

lemma count_multiples:
  "0 < s \<Longrightarrow> length (filter (\<lambda>i. i mod s = 0) [0..<n]) = ceil_div n s"
proof (induction n)
  case 0
  then show ?case by (simp add: ceil_div_def)
next
  case (Suc n)
  then show ?case by (simp add: ceil_div_Suc)
qed

lemma le_ceil_div_mult:
  assumes "0 < m"
  shows "n \<le> ceil_div n m * m"
proof (cases "n mod m = 0")
  case True
  then show ?thesis using assms by (simp add: ceil_div_dvd mod_eq_0_iff_dvd)
next
  case False
  have "n = n mod m + (n div m) * m" by simp
  moreover have "n mod m < m" using assms by simp
  ultimately have "n < m + (n div m) * m" by linarith
  then show ?thesis using assms False by (simp add: ceil_div_not_dvd)
qed

lemma ceil_div_le:
  assumes "0 < s" "n \<le> s * m"
  shows "ceil_div n s \<le> m"
proof -
  have "n + s - 1 < s * (m + 1)"
    using assms by simp
  then have "(n + s - 1) div s < m + 1"
    using assms(1) by (simp add: less_mult_imp_div_less mult.commute)
  then show ?thesis by (simp add: ceil_div_def)
qed

lemma ceil_div_pos: "0 < m \<Longrightarrow> 0 < n \<Longrightarrow> 0 < ceil_div n m"
  using le_ceil_div_mult[of m n] by (cases "ceil_div n m") auto

lemma length_stride:
  assumes "0 < maxPoints" "xs \<noteq> []"
  shows "length (stride xs maxPoints) \<le> maxPoints"
proof -
  let ?s = "ceil_div (length xs) maxPoints"
  have s: "0 < ?s" using assms by (simp add: ceil_div_pos)
  have "length (stride xs maxPoints) = ceil_div (length xs) ?s"
    using assms s by (simp add: stride_def length_filter_index count_multiples)
  also have "\<dots> \<le> maxPoints"
    using s le_ceil_div_mult[OF assms(1), of "length xs"] by (intro ceil_div_le) simp_all
  finally show ?thesis .
qed

lemma length_sampleData_loader:
  "0 < maxPoints \<Longrightarrow> length (sampleData_loader data maxPoints) \<le> maxPoints"
  by (auto simp: sampleData_loader_def intro: length_stride)

lemma length_sampleData_windfield:
  "0 < maxPoints \<Longrightarrow> length (sampleData_windfield data maxPoints) \<le> maxPoints"
  by (auto simp: sampleData_windfield_def Let_def intro: length_stride)

lemma extent_lat_boundary: "d3_extent (map lat boundary_points) = (Fin 0, Fin 50)"
  by (simp add: boundary_points_def d3_extent_def extent_step_def)

lemma extent_lon_boundary: "d3_extent (map lon boundary_points) = (Fin 0, Fin 100)"
  by (simp add: boundary_points_def d3_extent_def extent_step_def)

lemma grid_key_boundary:
  "grid_key boundary_points
     = (\<lambda>p. (grid_index (lat p) (Fin 0, Fin 50), grid_index (lon p) (Fin 0, Fin 100)))"
  by (rule ext) (simp add: grid_key_def extent_lat_boundary extent_lon_boundary)

lemma grid_keys_boundary:
  "map (grid_key boundary_points) boundary_points
     = [(Fin 0, Fin 0), (Fin 25, Fin 15), (Fin 50, Fin 50)]"
  by (simp add: grid_key_boundary)
    (simp add: boundary_points_def grid_index_def jsub_def gridSize_def Let_def rnd_small)

lemma sampleData_windfield_boundary:
  "sampleData_windfield boundary_points 2 = [boundary_points ! 0, boundary_points ! 2]"
proof -
  have "foldl (grid_add boundary_points) [] boundary_points
     = zip [(Fin 0, Fin 0), (Fin 25, Fin 15), (Fin 50, Fin 50)] boundary_points"
    using grid_keys_boundary by (simp add: boundary_points_def grid_add_def)
  then have "sampleData_windfield boundary_points 2 = stride boundary_points 2"
    by (simp add: sampleData_windfield_def Let_def boundary_points_def)
  then show ?thesis
    by (simp add: stride_def filter_index_def ceil_div_def boundary_points_def upt_rec)
qed

text \<open>
  Whether the point on the upper bound leaves the grid depends on the rounding. With the
  bounds 0 and 0.9 the width of a cell is rounded up, the quotient of the range by it is
  49.99999999999999, and the point gets the index 49 of the last cell.
\<close>

lemma grid_index_upper_bound_rounded:
  "grid_index (rnd (9 / 10)) (Fin 0, rnd (9 / 10)) = Fin 49"
proof -
  define hi :: real where "hi = 8106479329266893 / 2 ^ 53"
  define cell :: real where "cell = 5188146770730812 / 2 ^ 58"
  have nine: "rnd (9 / 10) = Fin hi"
    using rnd_down[of "9 / 10" 53] by (simp add: rhe_def hi_def)
  have width: "jsub (Fin hi) (Fin 0) = Fin hi"
    using rnd_dyadic[of hi 53] by (simp add: jsub_def hi_def)
  have cellSize: "jdiv (Fin hi) (Fin (real gridSize)) = Fin cell"
    using rnd_down[of "hi / 50" 58] by (simp add: rhe_def hi_def cell_def gridSize_def)
  have quotient: "jdiv (Fin hi) (Fin cell) = Fin (7036874417766399 / 2 ^ 47)"
    using rnd_down[of "hi / cell" 47] by (simp add: rhe_def hi_def cell_def)
  have last_cell: "jfloor (Fin (7036874417766399 / 2 ^ 47)) = Fin 49"
    by simp
  show ?thesis
    unfolding nine grid_index_def
    by (simp only: Let_def fst_conv snd_conv width cellSize quotient last_cell)
qed

text \<open>
  C6, evaluated on three points with \<open>maxPoints = 2\<close>: the grid has \<open>gridSize = 50\<close> cells
  per axis, yet the point on the upper latitude and longitude bounds is keyed with the
  index 50 on both axes, outside 0..49. Nothing clamps the index.
\<close>

theorem grid_key_upper_boundary_outside_grid:
  "gridSize = 50 \<and>
   map (grid_key boundary_points) boundary_points
     = [(Fin 0, Fin 0), (Fin 25, Fin 15), (Fin 50, Fin 50)] \<and>
   sampleData_windfield boundary_points 2 = [boundary_points ! 0, boundary_points ! 2]"
  by (simp add: gridSize_def grid_keys_boundary sampleData_windfield_boundary)

text \<open>
  C7: for every positive maxPoints both samplers (the fixed-stride one of data-loader.js
  and the grid one of windfield-canvas-visualization.js) return at most maxPoints
  elements, and they return their input unchanged when it has at most maxPoints elements.
\<close>

theorem sampleData_at_most_maxPoints:
  assumes "0 < maxPoints"
  shows "length (sampleData_loader data maxPoints) \<le> maxPoints \<and>
         length (sampleData_windfield points maxPoints) \<le> maxPoints \<and>
         (length data \<le> maxPoints \<longrightarrow> sampleData_loader data maxPoints = data) \<and>
         (length points \<le> maxPoints \<longrightarrow> sampleData_windfield points maxPoints = points)"
proof -
  have "sampleData_loader data maxPoints = data" if "length data \<le> maxPoints"
    using that by (simp add: sampleData_loader_def)
  moreover have "sampleData_windfield points maxPoints = points"
    if "length points \<le> maxPoints"
    using that by (simp add: sampleData_windfield_def)
  ultimately show ?thesis
    using length_sampleData_loader[OF assms, of data]
      length_sampleData_windfield[OF assms, of points]
    by blast
qed

theorem sampleData_at_most_maxPoints_witness:
  "(0::nat) < 2 \<and>
   length (sampleData_loader [10, 20, 30, 40, 50 :: nat] 2) \<le> 2 \<and>
   length (sampleData_windfield boundary_points 2) \<le> 2 \<and>
   sampleData_loader [10, 20 :: nat] 2 = [10, 20] \<and>
   sampleData_windfield (take 2 boundary_points) 2 = take 2 boundary_points"
  using sampleData_at_most_maxPoints[of 2 "[10, 20, 30, 40, 50 :: nat]" boundary_points]
    sampleData_at_most_maxPoints[of 2 "[10, 20 :: nat]" "take 2 boundary_points"]
  by simp

lemma rem_is_zero_dvd: "rem_is_zero i r = (r \<noteq> 0 \<and> r dvd int i)"
  unfolding rem_is_zero_def by auto

text \<open>
  C10: an input of at most 10000 elements is returned as it is, whatever the rate; a
  longer one is reduced to the elements whose index the rate divides, in their order (a
  rate of 0 divides no index: the remainder is NaN).
\<close>

theorem sampleTimeseriesData_threshold:
  "(length data \<le> 10000 \<longrightarrow> sampleTimeseriesData data sampleRate = data) \<and>
   (10000 < length data \<longrightarrow>
      sampleTimeseriesData data sampleRate
        = map (nth data)
            (filter (\<lambda>i. sampleRate \<noteq> 0 \<and> sampleRate dvd int i) [0..<length data]))"
  by (simp add: sampleTimeseriesData_def filter_index_nth rem_is_zero_dvd)

theorem sampleTimeseriesData_threshold_witness:
  "sampleTimeseriesData [1, 2, 3 :: nat] 2 = [1, 2, 3] \<and>
   sampleTimeseriesData (replicate 10001 (7 :: nat)) 10
     = map (nth (replicate 10001 7))
         (filter (\<lambda>i. (10 :: int) \<noteq> 0 \<and> 10 dvd int i)
            [0..<length (replicate 10001 (7 :: nat))])"
proof -
  have small: "length [1, 2, 3 :: nat] \<le> 10000" by simp
  have large: "10000 < length (replicate 10001 (7 :: nat))" by simp
  show ?thesis
    using sampleTimeseriesData_threshold[of "[1, 2, 3 :: nat]" 2]
      sampleTimeseriesData_threshold[of "replicate 10001 (7 :: nat)" 10] small large
    by blast
qed

section \<open>Properties of the field resolver\<close>

lemmas matchKey_simps =
  matchKey_def possibleKeys_def hasOwnProperty_def truthy_text_def example_engine_def
  ascii_trim_def is_space_def

lemma matchKey_scenario:
  "matchKey example_engine (hd scenario_rows) ''PM2.5'' = Some (''PM2.5'' @ suffix_ug)"
  by (simp add: scenario_rows_def matchKey_simps suffix_ug_def)

lemma resolved_key_scenario:
  "resolved_key example_engine scenario_rows ''PM2.5'' = Some (''PM2.5'' @ suffix_ug)"
  using matchKey_scenario by (simp add: resolved_key_def scenario_rows_def)

text \<open>extractPollutantData is the filter over the projections on the resolved column.\<close>

lemma extractPollutantData_resolved:
  "extractPollutantData eng rawData pollutantName =
     (case resolved_key eng rawData pollutantName of
        None \<Rightarrow> []
      | Some k \<Rightarrow> filter (value_kept eng) (map (project k) rawData))"
  by (simp add: extractPollutantData_def resolved_key_def split: list.splits option.splits)

lemma value_kept_numeric:
  "text_not_numeric eng (get_prop r k) \<Longrightarrow>
   value_kept eng (project k r) = numeric_cell (get_prop r k)"
  by (cases "get_prop r k")
    (auto simp: value_kept_def project_def isNaN_def numeric_cell_def text_not_numeric_def)

lemma filter_numeric:
  "list_all (\<lambda>r. text_not_numeric eng (get_prop r k)) rows \<Longrightarrow>
   filter (value_kept eng) (map (project k) rows)
     = map (project k) (filter (\<lambda>r. numeric_cell (get_prop r k)) rows)"
  by (induction rows) (simp_all add: value_kept_numeric)

text \<open>
  C5, as the specification states it, fails: the filter of extractPollutantData tests
  for \<^verbatim>\<open>null\<close> and for NaN only, so a row whose cell is Infinity is kept with that value.
\<close>

theorem extractPollutantData_keeps_infinite_value:
  "map p_value (extractPollutantData example_engine infinite_rows ''PM2.5'') = [JNum PInf]"
  by (simp add: infinite_rows_def extractPollutantData_def matchKey_simps value_kept_def
      isNaN_def project_def get_prop_def)

text \<open>
  The same filter converts text before it tests for NaN: under every engine that
  converts the empty text to 0, as JavaScript does, a row with an empty cell is kept, its
  value being the empty text.
\<close>

lemma extractPollutantData_keeps_empty_text:
  "stringToNumber eng [] = Fin 0 \<Longrightarrow>
   map p_value (extractPollutantData eng empty_cell_rows ''PM2.5'') = [JStr []]"
  by (simp add: empty_cell_rows_def extractPollutantData_def matchKey_def possibleKeys_def
      hasOwnProperty_def truthy_text_def value_kept_def isNaN_def project_def get_prop_def)

text \<open>
  C5, amended. When no column resolves, nothing is returned. When the column \<open>k\<close>
  resolves and no record holds in it a text that converts to a number, the points
  returned are the projections, in order, of exactly the records whose cell in column
  \<open>k\<close> is a number other than NaN, each with its own cell as value: every point has a
  non-null numeric value, and records whose cell is \<^verbatim>\<open>null\<close>, \<^verbatim>\<open>undefined\<close>, a text or
  NaN are dropped. Infinite values are kept.
\<close>

theorem extractPollutantData_values_numeric:
  "(resolved_key eng rawData pollutantName = None \<longrightarrow>
      extractPollutantData eng rawData pollutantName = []) \<and>
   (resolved_key eng rawData pollutantName = Some k \<and>
    list_all (\<lambda>r. text_not_numeric eng (get_prop r k)) rawData \<longrightarrow>
      extractPollutantData eng rawData pollutantName
        = map (project k) (filter (\<lambda>r. numeric_cell (get_prop r k)) rawData) \<and>
      list_all (\<lambda>p. numeric_cell (p_value p)) (extractPollutantData eng rawData pollutantName))"
proof -
  have "list_all (\<lambda>p. numeric_cell (p_value p))
          (map (project k) (filter (\<lambda>r. numeric_cell (get_prop r k)) rawData))"
    by (simp add: list_all_iff project_def)
  then show ?thesis
    by (simp add: extractPollutantData_resolved filter_numeric)
qed

theorem extractPollutantData_values_numeric_witness:
  "extractPollutantData example_engine [] ''PM2.5'' = [] \<and>
   map p_value (extractPollutantData example_engine scenario_rows ''PM2.5'') = [JNum (Fin 55)] \<and>
   list_all (\<lambda>p. numeric_cell (p_value p))
     (extractPollutantData example_engine scenario_rows ''PM2.5'')"
proof -
  have texts: "list_all (\<lambda>r. text_not_numeric example_engine (get_prop r (''PM2.5'' @ suffix_ug)))
      scenario_rows"
    by (simp add: scenario_rows_def text_not_numeric_def get_prop_def example_engine_def
        suffix_ug_def)
  have kept: "filter (\<lambda>r. numeric_cell (get_prop r (''PM2.5'' @ suffix_ug))) scenario_rows
      = [hd scenario_rows]"
    by (simp add: scenario_rows_def numeric_cell_def get_prop_def suffix_ug_def)
  have cell: "p_value (project (''PM2.5'' @ suffix_ug) (hd scenario_rows)) = JNum (Fin 55)"
    by (simp add: scenario_rows_def project_def get_prop_def suffix_ug_def)
  have empty: "resolved_key example_engine [] ''PM2.5'' = None"
    by (simp add: resolved_key_def)
  have main: "extractPollutantData example_engine scenario_rows ''PM2.5''
        = map (project (''PM2.5'' @ suffix_ug))
            (filter (\<lambda>r. numeric_cell (get_prop r (''PM2.5'' @ suffix_ug))) scenario_rows) \<and>
      list_all (\<lambda>p. numeric_cell (p_value p))
        (extractPollutantData example_engine scenario_rows ''PM2.5'')"
    using extractPollutantData_values_numeric
            [of example_engine scenario_rows "''PM2.5''" "''PM2.5'' @ suffix_ug"]
          resolved_key_scenario texts
    by blast
  have none: "extractPollutantData example_engine [] ''PM2.5'' = []"
    using extractPollutantData_values_numeric[of example_engine "[]" "''PM2.5''"] empty
    by blast
  from main have "extractPollutantData example_engine scenario_rows ''PM2.5''
      = [project (''PM2.5'' @ suffix_ug) (hd scenario_rows)]"
    by (simp only: kept list.map)
  then have "map p_value (extractPollutantData example_engine scenario_rows ''PM2.5'')
      = [JNum (Fin 55)]"
    by (simp only: list.map cell)
  with main none show ?thesis
    by blast
qed

section \<open>Properties of the dataset locator\<close>

lemma probe_answer_0:
  "probe_answer net issued relative (c # cands) 0 = net issued (normRoot c @ relative)"
  by (simp add: probe_answer_def probe_urls_def)

lemma probe_answer_Suc:
  "probe_answer net issued relative (c # cands) (Suc k)
     = probe_answer net (issued @ [normRoot c @ relative]) relative cands k"
  by (simp add: probe_answer_def probe_urls_def)

lemma probe_urls_Cons:
  "probe_urls relative (c # cands) = (normRoot c @ relative) # probe_urls relative cands"
  by (simp add: probe_urls_def)

lemma list_all_upt_Suc:
  "list_all P [0..<Suc k] = (P 0 \<and> list_all (\<lambda>i. P (Suc i)) [0..<k])"
proof -
  have "(\<forall>i<Suc k. P i) = (P 0 \<and> (\<forall>i<k. P (Suc i)))"
    by (rule All_less_Suc2)
  then show ?thesis
    by (simp add: list_all_iff Ball_def del: upt_Suc)
qed

lemma probe_fails_0:
  "probe_fails net issued relative (c # cands) 0
     = (\<not> resp_ok (net issued (normRoot c @ relative)))"
  by (simp add: probe_fails_def probe_answer_0)

lemma probe_fails_Suc:
  "probe_fails net issued relative (c # cands) (Suc i)
     = probe_fails net (issued @ [normRoot c @ relative]) relative cands i"
  by (simp add: probe_fails_def probe_answer_Suc)

text \<open>The loop stops at the first candidate whose probe succeeds, and adopts it.\<close>

lemma probe_first_success:
  "first_success net (fetchLog st) relative cands k \<Longrightarrow>
   probe net relative cands st =
     (Some (normRoot (cands ! k)),
      st\<lparr>fetchLog := fetchLog st @ take (Suc k) (probe_urls relative cands),
         resolvedBasePath := Some (normRoot (cands ! k)),
         basePath := normRoot (cands ! k)\<rparr>)"
proof (induction cands arbitrary: st k)
  case Nil
  then show ?case by (simp add: first_success_def)
next
  case (Cons c cands)
  show ?case
  proof (cases k)
    case 0
    with Cons.prems show ?thesis
      by (simp add: first_success_def probe_answer_0 fetch_def probe_urls_Cons)
  next
    case (Suc j)
    let ?st1 = "st\<lparr>fetchLog := fetchLog st @ [normRoot c @ relative]\<rparr>"
    from Cons.prems Suc have fail: "\<not> resp_ok (net (fetchLog st) (normRoot c @ relative))"
      and rest: "first_success net (fetchLog ?st1) relative cands j"
      by (simp_all add: first_success_def list_all_upt_Suc probe_fails_0 probe_fails_Suc
          probe_answer_Suc del: upt_Suc)
    from Cons.IH[OF rest] fail Suc show ?thesis
      by (simp add: fetch_def probe_urls_Cons)
  qed
qed

text \<open>When every probe fails the loop tries every candidate and changes no root.\<close>

lemma probe_every_fail:
  "every_probe_fails net (fetchLog st) relative cands \<Longrightarrow>
   probe net relative cands st =
     (None, st\<lparr>fetchLog := fetchLog st @ probe_urls relative cands\<rparr>)"
proof (induction cands arbitrary: st)
  case Nil
  then show ?case by (simp add: probe_urls_def)
next
  case (Cons c cands)
  let ?st1 = "st\<lparr>fetchLog := fetchLog st @ [normRoot c @ relative]\<rparr>"
  from Cons.prems have fail: "\<not> resp_ok (net (fetchLog st) (normRoot c @ relative))"
    and rest: "every_probe_fails net (fetchLog ?st1) relative cands"
    by (simp_all add: every_probe_fails_def list_all_upt_Suc probe_fails_0 probe_fails_Suc
        del: upt_Suc)
  from Cons.IH[OF rest] fail show ?case
    by (simp add: fetch_def probe_urls_Cons)
qed

lemma normRoot_not_empty: "normRoot r \<noteq> []"
  by (simp add: normRoot_def)

lemma unresolved_new_loader: "\<not> truthy_text (resolvedBasePath new_loader)"
  by (simp add: new_loader_def truthy_text_def)

lemma first_success_data_dir:
  "first_success serves_data_dir (fetchLog new_loader) (relativePath ''20130101'')
     (candidates new_loader) 3"
  by (simp add: first_success_def probe_fails_def probe_answer_def probe_urls_def
      serves_data_dir_def new_loader_def candidates_def normRoot_def relativePath_def
      fileName_def resp_ok_def upt_rec)

lemma every_probe_fails_missing:
  "every_probe_fails all_missing (fetchLog new_loader) (relativePath ''20130101'')
     (candidates new_loader)"
  by (simp add: every_probe_fails_def probe_fails_def probe_answer_def all_missing_def
      resp_ok_def list_all_iff)

lemma probe_urls_new_loader:
  "probe_urls (relativePath ''20130101'') (candidates new_loader) =
     [''./Dataset/201301/CN-Reanalysis-daily-2013010100.csv'',
      ''./Dataset/201301/CN-Reanalysis-daily-2013010100.csv'',
      ''./dataset/201301/CN-Reanalysis-daily-2013010100.csv'',
      ''./data/201301/CN-Reanalysis-daily-2013010100.csv'',
      ''/Dataset/201301/CN-Reanalysis-daily-2013010100.csv'',
      ''/data/201301/CN-Reanalysis-daily-2013010100.csv'']"
  by (simp add: probe_urls_def candidates_def new_loader_def normRoot_def relativePath_def
      fileName_def)

text \<open>
  C9: while no root is resolved, the candidates are the current setting followed by the
  fixed list. If the \<open>k\<close>-th candidate is the first whose probe succeeds, exactly the first
  \<open>k + 1\<close> candidates were fetched, one fetch each and in the listed order, the \<open>k\<close>-th is
  adopted as base and resolved root, and a later call returns it with no fetch. If every
  probe fails, each candidate was fetched once and both roots are as they were.
\<close>

theorem resolveBasePathIfNeeded_probes_in_order:
  assumes "\<not> truthy_text (resolvedBasePath st)"
  shows "candidates st
           = basePath st # [''./Dataset/'', ''./dataset/'', ''./data/'', ''/Dataset/'', ''/data/''] \<and>
    (first_success net (fetchLog st) (relativePath ymd) (candidates st) k \<longrightarrow>
       resolveBasePathIfNeeded net ymd st =
         (normRoot (candidates st ! k),
          st\<lparr>fetchLog :=
               fetchLog st @ take (Suc k) (probe_urls (relativePath ymd) (candidates st)),
             resolvedBasePath := Some (normRoot (candidates st ! k)),
             basePath := normRoot (candidates st ! k)\<rparr>) \<and>
       resolveBasePathIfNeeded net2 ymd2 (snd (resolveBasePathIfNeeded net ymd st)) =
         resolveBasePathIfNeeded net ymd st) \<and>
    (every_probe_fails net (fetchLog st) (relativePath ymd) (candidates st) \<longrightarrow>
       resolveBasePathIfNeeded net ymd st =
         (basePath st,
          st\<lparr>fetchLog := fetchLog st @ probe_urls (relativePath ymd) (candidates st)\<rparr>))"
proof -
  have unresolved: "resolveBasePathIfNeeded net ymd st = probeCandidates net ymd st"
    using assms by (simp add: resolveBasePathIfNeeded_def truthy_text_def split: option.splits)
  have hit: "resolveBasePathIfNeeded net ymd st =
         (normRoot (candidates st ! k),
          st\<lparr>fetchLog :=
               fetchLog st @ take (Suc k) (probe_urls (relativePath ymd) (candidates st)),
             resolvedBasePath := Some (normRoot (candidates st ! k)),
             basePath := normRoot (candidates st ! k)\<rparr>)"
    if "first_success net (fetchLog st) (relativePath ymd) (candidates st) k"
    using probe_first_success[OF that] by (simp add: unresolved probeCandidates_def)
  have again: "resolveBasePathIfNeeded net2 ymd2 (snd (resolveBasePathIfNeeded net ymd st)) =
         resolveBasePathIfNeeded net ymd st"
    if "first_success net (fetchLog st) (relativePath ymd) (candidates st) k"
    unfolding hit[OF that] by (simp add: resolveBasePathIfNeeded_def normRoot_not_empty)
  have miss: "resolveBasePathIfNeeded net ymd st =
         (basePath st,
          st\<lparr>fetchLog := fetchLog st @ probe_urls (relativePath ymd) (candidates st)\<rparr>)"
    if "every_probe_fails net (fetchLog st) (relativePath ymd) (candidates st)"
    using probe_every_fail[OF that] by (simp add: unresolved probeCandidates_def)
  show ?thesis
    using hit again miss by (simp add: candidates_def)
qed

theorem resolveBasePathIfNeeded_probes_in_order_witness:
  "resolveBasePathIfNeeded serves_data_dir ''20130101'' new_loader =
     (''./data/'',
      new_loader\<lparr>fetchLog := [''./Dataset/201301/CN-Reanalysis-daily-2013010100.csv'',
                               ''./Dataset/201301/CN-Reanalysis-daily-2013010100.csv'',
                               ''./dataset/201301/CN-Reanalysis-daily-2013010100.csv'',
                               ''./data/201301/CN-Reanalysis-daily-2013010100.csv''],
                  resolvedBasePath := Some ''./data/'', basePath := ''./data/''\<rparr>) \<and>
   resolveBasePathIfNeeded all_missing ''20130101'' new_loader =
     (''./Dataset/'',
      new_loader\<lparr>fetchLog := [''./Dataset/201301/CN-Reanalysis-daily-2013010100.csv'',
                               ''./Dataset/201301/CN-Reanalysis-daily-2013010100.csv'',
                               ''./dataset/201301/CN-Reanalysis-daily-2013010100.csv'',
                               ''./data/201301/CN-Reanalysis-daily-2013010100.csv'',
                               ''/Dataset/201301/CN-Reanalysis-daily-2013010100.csv'',
                               ''/data/201301/CN-Reanalysis-daily-2013010100.csv'']\<rparr>)"
proof -
  have cands: "candidates new_loader ! 3 = ''./data/''" "basePath new_loader = ''./Dataset/''"
    "fetchLog new_loader = []"
    by (simp_all add: candidates_def new_loader_def)
  have norm: "normRoot ''./data/'' = ''./data/''"
    by (simp add: normRoot_def)
  note adopted =
    resolveBasePathIfNeeded_probes_in_order[OF unresolved_new_loader,
      where net = serves_data_dir and ymd = "''20130101''" and k = 3,
      THEN conjunct2, THEN conjunct1, THEN mp, OF first_success_data_dir, THEN conjunct1]
  note retained =
    resolveBasePathIfNeeded_probes_in_order[OF unresolved_new_loader,
      where net = all_missing and ymd = "''20130101''",
      THEN conjunct2, THEN conjunct2, THEN mp, OF every_probe_fails_missing]
  show ?thesis
    using adopted retained by (simp add: probe_urls_new_loader cands norm)
qed

section \<open>Properties of the day loader\<close>

lemmas loader_simps =
  loadDayData_def loadCSVFile_def fetch_def csv_result_def resolveBasePathIfNeeded_def
  probeCandidates_def candidates_def dayFilePath_def currentRoot_def relativePath_def
  fileName_def normRoot_def resp_ok_def store_def

lemma loadCSVFile_cache:
  "loadCSVFile net path st = (res, st1) \<Longrightarrow> dataCache st1 = dataCache st"
  by (auto simp: loadCSVFile_def fetch_def)

lemma probe_cache:
  "probe net relative cands st = (res, st1) \<Longrightarrow> dataCache st1 = dataCache st"
  by (induction cands arbitrary: st) (auto simp: fetch_def split: if_splits)

lemma resolve_cache:
  "resolveBasePathIfNeeded net d st = (res, st1) \<Longrightarrow> dataCache st1 = dataCache st"
  by (auto simp: resolveBasePathIfNeeded_def probeCandidates_def
      split: option.splits if_splits prod.splits dest: probe_cache)

lemma store_then_hit:
  "store d rows0 s = (rows, st1) \<Longrightarrow> loadDayData net2 d st1 = (rows, st1)"
  by (auto simp: store_def loadDayData_def)

lemma first_load_serves_all:
  "loadDayData serves_all ''20130101'' new_loader =
     ([stamped_row],
      new_loader\<lparr>dataCache := [''20130101'' \<mapsto> [stamped_row]], fetchLog := [day_url]\<rparr>)"
  by (simp add: loadDayData_def loadCSVFile_def fetch_def csv_result_def dayFilePath_def
      currentRoot_def fileName_def store_def stamp_def serves_all_def new_loader_def
      stamped_row_def day_url_def)

text \<open>
  loadMonthData, for comparison: after a load that failed the month key holds the empty
  sequence.
\<close>

lemma loadMonthData_caches_failure:
  "dataCache (snd (loadMonthData offline ''201301'' new_loader)) ''201301'' = Some []"
  by (simp add: loadMonthData_def loader_simps offline_def new_loader_def)

text \<open>
  C2, evaluated where every fetch fails: the first attempt, the six probes and the retry
  are fetched (eight requests), loadDayData returns the empty sequence, and the date key
  is still absent from the cache; the next call for the same date is a miss and issues
  eight requests more. The branch that returns the empty sequence leaves before the
  line that writes the cache.
\<close>

theorem loadDayData_failure_not_cached:
  "fst (loadDayData offline ''20130101'' new_loader) = [] \<and>
   dataCache (snd (loadDayData offline ''20130101'' new_loader)) ''20130101'' = None \<and>
   length (fetchLog (snd (loadDayData offline ''20130101'' new_loader))) = 8 \<and>
   length (fetchLog (snd (loadDayData offline ''20130101''
              (snd (loadDayData offline ''20130101'' new_loader))))) = 16"
  by (simp add: loader_simps offline_def new_loader_def)

text \<open>
  A call that runs alone and leaves the date in the cache: the next call, run alone, is a
  hit that returns the same sequence.
\<close>

lemma loadDayData_returned_then_hit:
  assumes "loadDayData net d st = (rows, st1)" and "dataCache st1 d \<noteq> None"
  shows "loadDayData net2 d st1 = (rows, st1)"
proof (cases "dataCache st d")
  case (Some data)
  with assms(1) show ?thesis by (auto simp: loadDayData_def)
next
  case None
  obtain r1 s1 where first: "loadCSVFile net (dayFilePath st d) st = (r1, s1)"
    by fastforce
  obtain p s2 where resolve: "resolveBasePathIfNeeded net d s1 = (p, s2)"
    by fastforce
  obtain r3 s3 where second: "loadCSVFile net (dayFilePath s2 d) s2 = (r3, s3)"
    by fastforce
  have cache: "dataCache s3 = dataCache st"
    using loadCSVFile_cache[OF first] resolve_cache[OF resolve] loadCSVFile_cache[OF second]
    by simp
  show ?thesis
  proof (cases r1)
    case (Some rows0)
    with assms(1) None first have "store d rows0 s1 = (rows, st1)"
      by (simp add: loadDayData_def)
    then show ?thesis by (rule store_then_hit)
  next
    case r1: None
    show ?thesis
    proof (cases r3)
      case (Some rows0)
      with assms(1) None first r1 resolve second have "store d rows0 s3 = (rows, st1)"
        by (simp add: loadDayData_def)
      then show ?thesis by (rule store_then_hit)
    next
      case r3: None
      with assms(1) \<open>dataCache st d = None\<close> first r1 resolve second have "st1 = s3"
        by (simp add: loadDayData_def)
      with cache \<open>dataCache st d = None\<close> assms(2) show ?thesis by simp
    qed
  qed
qed

lemma loadDayData_returns_entry:
  assumes "loadDayData net d st = (rows, st1)" and "dataCache st1 d \<noteq> None"
  shows "dataCache st1 d = Some rows"
  using loadDayData_returned_then_hit[OF assms, of net] assms(2)
  by (auto simp: loadDayData_def split: option.splits)

lemma cached_is_hit:
  "dataCache st d = Some rows \<Longrightarrow>
   loadDayData net d st = (rows, st) \<and> resume net (Start d) st = (Done rows, st)"
  by (simp add: loadDayData_def)

text \<open>
  One run of a call that is not in flight for \<open>d\<close> leaves the entry of \<open>d\<close> as it is, leaves
  the call not in flight for \<open>d\<close>, and turns a call for \<open>d\<close> that starts into one that has
  returned the entry.
\<close>

lemma resume_keeps_entry:
  assumes "dataCache st d = Some rows" "\<not> in_flight d t" "resume net t st = (t1, st1)"
  shows "dataCache st1 d = Some rows \<and> \<not> in_flight d t1 \<and>
         (starts_or_returned d rows t \<longrightarrow> starts_or_returned d rows t1)"
proof (cases t)
  case (Start d')
  with assms show ?thesis
    by (auto simp: fetch_def starts_or_returned_def split: option.splits)
next
  case (AwaitFirst d' resp)
  with assms show ?thesis
    by (auto simp: second_attempt_def probe_next_def stored_def store_def fetch_def
        starts_or_returned_def split: option.splits list.splits if_splits)
next
  case (AwaitProbe d' rootPath rest resp)
  with assms show ?thesis
    by (auto simp: second_attempt_def probe_next_def fetch_def starts_or_returned_def
        split: list.splits if_splits)
next
  case (AwaitSecond d' resp)
  with assms show ?thesis
    by (auto simp: stored_def store_def starts_or_returned_def split: option.splits)
next
  case (Done data)
  with assms show ?thesis
    by auto
qed

lemma interleave_keeps_entry:
  assumes "dataCache st d = Some rows" "list_all (\<lambda>t. \<not> in_flight d t) ts"
    and "interleave net schedule ts st = (ts1, st1)"
  shows "dataCache st1 d = Some rows \<and> list_all (\<lambda>t. \<not> in_flight d t) ts1 \<and>
         length ts1 = length ts \<and>
         (\<forall>i<length ts. starts_or_returned d rows (ts ! i)
            \<longrightarrow> starts_or_returned d rows (ts1 ! i))"
  using assms
proof (induction schedule arbitrary: ts st)
  case Nil
  then show ?case by simp
next
  case (Cons i schedule)
  show ?case
  proof (cases "i < length ts")
    case False
    with Cons.prems(3) have "interleave net schedule ts st = (ts1, st1)"
      by simp
    from Cons.IH[OF Cons.prems(1,2) this] show ?thesis .
  next
    case True
    obtain t s1 where step: "resume net (ts ! i) st = (t, s1)"
      by fastforce
    have idle: "\<not> in_flight d (ts ! i)"
      using Cons.prems(2) True by (simp add: list_all_length)
    note kept = resume_keeps_entry[OF Cons.prems(1) idle step]
    have idle1: "list_all (\<lambda>t. \<not> in_flight d t) (ts[i := t])"
      using Cons.prems(2) kept True by (auto simp: list_all_length nth_list_update)
    have rest: "interleave net schedule (ts[i := t]) s1 = (ts1, st1)"
      using Cons.prems(3) True step by simp
    have final: "dataCache st1 d = Some rows \<and> list_all (\<lambda>t. \<not> in_flight d t) ts1 \<and>
         length ts1 = length (ts[i := t]) \<and>
         (\<forall>j<length (ts[i := t]). starts_or_returned d rows (ts[i := t] ! j)
            \<longrightarrow> starts_or_returned d rows (ts1 ! j))"
      using kept by (intro Cons.IH[OF _ idle1 rest]) simp
    have "starts_or_returned d rows (ts1 ! j)"
      if "j < length ts" "starts_or_returned d rows (ts ! j)" for j
    proof -
      have "starts_or_returned d rows (ts[i := t] ! j)"
        using that kept by (cases "j = i") (simp_all add: nth_list_update)
      with final that(1) show ?thesis by simp
    qed
    with final show ?thesis by simp
  qed
qed

text \<open>
  Calls for one date started in turn while the date is not cached: each misses the cache
  and issues its own fetch of the file of that date.
\<close>

lemma launch_overlapping:
  "dataCache s d = None \<Longrightarrow>
   \<exists>started.
     foldl (\<lambda>(ts, s) d. case resume net (Start d) s of (t, s1) \<Rightarrow> (ts @ [t], s1)) (ts, s)
       (replicate k d)
       = (ts @ started, s\<lparr>fetchLog := fetchLog s @ replicate k (dayFilePath s d)\<rparr>) \<and>
     length started = k \<and> list_all (in_flight d) started"
proof (induction k arbitrary: ts s)
  case 0
  then show ?case by simp
next
  case (Suc k)
  let ?url = "dayFilePath s d"
  let ?s1 = "s\<lparr>fetchLog := fetchLog s @ [?url]\<rparr>"
  let ?t = "AwaitFirst d (net (fetchLog s) ?url)"
  have step: "resume net (Start d) s = (?t, ?s1)"
    using Suc.prems by (simp add: fetch_def)
  have miss: "dataCache ?s1 d = None"
    using Suc.prems by simp
  have url: "dayFilePath ?s1 d = ?url"
    by (simp add: dayFilePath_def currentRoot_def split: option.splits)
  from Suc.IH[OF miss, of "ts @ [?t]"] obtain started where
    run: "foldl (\<lambda>(ts, s) d. case resume net (Start d) s of (t, s1) \<Rightarrow> (ts @ [t], s1))
            (ts @ [?t], ?s1) (replicate k d)
          = ((ts @ [?t]) @ started, ?s1\<lparr>fetchLog := fetchLog ?s1 @ replicate k ?url\<rparr>)"
    and started: "length started = k" "list_all (in_flight d) started"
    unfolding url by blast
  have "foldl (\<lambda>(ts, s) d. case resume net (Start d) s of (t, s1) \<Rightarrow> (ts @ [t], s1)) (ts, s)
          (replicate (Suc k) d)
        = (ts @ (?t # started), s\<lparr>fetchLog := fetchLog s @ replicate (Suc k) ?url\<rparr>)"
    using step run by simp
  moreover have "length (?t # started) = Suc k" "list_all (in_flight d) (?t # started)"
    using started by simp_all
  ultimately show ?case by blast
qed

text \<open>
  C3, as the specification states it, fails: two calls for the same date that overlap
  (the second starts while the first waits for its fetch) both miss the cache and both
  fetch, although every fetch succeeds; no table of requests in flight exists.
\<close>

theorem loadDayData_overlapping_calls_fetch_twice:
  "interleave serves_all [0, 1, 0, 1] [Start ''20130101'', Start ''20130101''] new_loader =
    ([Done [stamped_row], Done [stamped_row]],
     new_loader\<lparr>dataCache := [''20130101'' \<mapsto> [stamped_row]],
                 fetchLog := [day_url, day_url]\<rparr>)"
  by (simp add: new_loader_def fetch_def dayFilePath_def currentRoot_def fileName_def
      serves_all_def csv_result_def stored_def store_def stamp_def stamped_row_def day_url_def)

text \<open>
  An overlapping call that is still in flight writes the entry again when it returns: on
  a network whose file changes between the two fetches, the date is cached with one row
  when the first call returns, and with no row once the second has returned.
\<close>

lemma loadDayData_in_flight_call_overwrites:
  "dataCache (snd (interleave serves_changing [0, 1, 0]
      [Start ''20130101'', Start ''20130101''] new_loader)) ''20130101'' = Some [stamped_row] \<and>
   dataCache (snd (interleave serves_changing [0, 1, 0, 1]
      [Start ''20130101'', Start ''20130101''] new_loader)) ''20130101'' = Some []"
  by (simp add: new_loader_def fetch_def dayFilePath_def currentRoot_def fileName_def
      serves_changing_def csv_result_def stored_def store_def stamp_def stamped_row_def)

text \<open>
  C3, amended. A call of loadDayData for a date that starts while the date is in the
  cache returns the cached sequence and leaves the loader as it is: it is a cache hit
  and issues no fetch, whatever the network would answer. A call that runs from its
  start to its return with no other call in between, and leaves the date in the cache,
  has returned the cached sequence. While no call for the date that missed the cache is
  still in flight, the entry stays as it is through every interleaving of calls for any
  dates, none of them comes to be in flight for the date, and every call for the date
  among them returns the entry. Calls for a date that start in turn while the date is
  not cached each issue their own fetch of its file.
\<close>

theorem loadDayData_cache_hit_persists:
  "(dataCache st d = Some rows \<longrightarrow>
      loadDayData net d st = (rows, st) \<and> resume net (Start d) st = (Done rows, st)) \<and>
   (loadDayData net d st = (rows, st1) \<and> dataCache st1 d \<noteq> None \<longrightarrow>
      dataCache st1 d = Some rows) \<and>
   (dataCache st d = Some rows \<and> list_all (\<lambda>t. \<not> in_flight d t) ts \<and>
    interleave net schedule ts st = (ts2, st2) \<longrightarrow>
      dataCache st2 d = Some rows \<and> list_all (\<lambda>t. \<not> in_flight d t) ts2 \<and>
      length ts2 = length ts \<and>
      (\<forall>i<length ts. starts_or_returned d rows (ts ! i)
         \<longrightarrow> starts_or_returned d rows (ts2 ! i))) \<and>
   (dataCache st d = None \<longrightarrow>
      fetchLog (snd (launch net (replicate k d) st))
        = fetchLog st @ replicate k (dayFilePath st d) \<and>
      length (fst (launch net (replicate k d) st)) = k \<and>
      list_all (in_flight d) (fst (launch net (replicate k d) st)))"
proof -
  have overlapping:
    "fetchLog (snd (launch net (replicate k d) st))
        = fetchLog st @ replicate k (dayFilePath st d) \<and>
      length (fst (launch net (replicate k d) st)) = k \<and>
      list_all (in_flight d) (fst (launch net (replicate k d) st))"
    if "dataCache st d = None"
    using launch_overlapping[OF that, of net "[]" k] by (auto simp: launch_def)
  show ?thesis
    using cached_is_hit[of st d rows net] loadDayData_returns_entry[of net d st rows st1]
      interleave_keeps_entry[of st d rows ts net schedule ts2 st2] overlapping
    by blast
qed

theorem loadDayData_cache_hit_persists_witness:
  "loadDayData offline ''20130101'' cached_loader = ([stamped_row], cached_loader) \<and>
   loadDayData serves_all ''20130101'' new_loader = ([stamped_row], cached_loader) \<and>
   dataCache cached_loader ''20130101'' = Some [stamped_row] \<and>
   dataCache (snd (interleave serves_all [0, 1, 0] [Start ''20130102'', Start ''20130101'']
      cached_loader)) ''20130101'' = Some [stamped_row] \<and>
   fst (interleave serves_all [0, 1, 0] [Start ''20130102'', Start ''20130101''] cached_loader) ! 1
     = Done [stamped_row] \<and>
   fetchLog (snd (launch serves_all (replicate 3 ''20130101'') new_loader))
     = [day_url, day_url, day_url]"
proof -
  have cached: "dataCache cached_loader ''20130101'' = Some [stamped_row]"
    by (simp add: cached_loader_def)
  have first: "loadDayData serves_all ''20130101'' new_loader = ([stamped_row], cached_loader)"
    by (simp add: first_load_serves_all cached_loader_def)
  have idle: "list_all (\<lambda>t. \<not> in_flight ''20130101'' t) [Start ''20130102'', Start ''20130101'']"
    by simp
  have miss: "dataCache new_loader ''20130101'' = None"
    by (simp add: new_loader_def)
  have url: "dayFilePath new_loader ''20130101'' = day_url"
    by (simp add: dayFilePath_def currentRoot_def fileName_def new_loader_def day_url_def)
  have second: "fst (interleave serves_all [0, 1, 0] [Start ''20130102'', Start ''20130101'']
      cached_loader) ! 1 = Done [stamped_row]"
    by (simp add: cached_loader_def new_loader_def fetch_def dayFilePath_def currentRoot_def
        fileName_def serves_all_def csv_result_def stored_def store_def)
  note hit = loadDayData_cache_hit_persists
    [of cached_loader "''20130101''" "[stamped_row]" offline,
      THEN conjunct1, THEN mp, OF cached, THEN conjunct1]
  note kept = loadDayData_cache_hit_persists
    [of cached_loader "''20130101''" "[stamped_row]" serves_all _
        "[Start ''20130102'', Start ''20130101'']" "[0, 1, 0]",
      THEN conjunct2, THEN conjunct2, THEN conjunct1, THEN mp,
      OF conjI[OF cached conjI[OF idle prod.collapse[symmetric]]], THEN conjunct1]
  note fetched = loadDayData_cache_hit_persists
    [of new_loader "''20130101''" _ serves_all _ _ _ _ _ 3,
      THEN conjunct2, THEN conjunct2, THEN conjunct2, THEN mp, OF miss, THEN conjunct1]
  have log: "fetchLog new_loader @ replicate 3 day_url = [day_url, day_url, day_url]"
    by (simp add: new_loader_def numeral_3_eq_3)
  have three: "fetchLog (snd (launch serves_all (replicate 3 ''20130101'') new_loader))
      = [day_url, day_url, day_url]"
    using fetched unfolding url log .
  show ?thesis
    using hit first cached kept second three by blast
qed

subsection \<open>A call that runs alone is loadDayData\<close>

lemma run_alone_Done: "run_alone n net (Done r) st = (Done r, st)"
  by (induction n) auto

lemma run_second_attempt:
  assumes "second_attempt net d st = (t, s)"
  shows "run_alone (Suc n) net t s =
     (case loadCSVFile net (dayFilePath st d) st of
        (Some rows, st3) \<Rightarrow> (Done (fst (store d rows st3)), snd (store d rows st3))
      | (None, st3) \<Rightarrow> (Done [], st3))"
  using assms
  by (auto simp: second_attempt_def loadCSVFile_def stored_def run_alone_Done
      split: prod.splits option.splits)

lemma run_probe_next:
  assumes "length cands < n" and "probe_next net d cands st = (t, s)"
  shows "run_alone n net t s =
     (case probe net (relativePath d) cands st of
        (res, st2) \<Rightarrow>
          (case loadCSVFile net (dayFilePath st2 d) st2 of
             (Some rows, st3) \<Rightarrow> (Done (fst (store d rows st3)), snd (store d rows st3))
           | (None, st3) \<Rightarrow> (Done [], st3)))"
  using assms
proof (induction cands arbitrary: st n t s)
  case Nil
  then obtain m where "n = Suc m" by (cases n) auto
  with Nil show ?case
    using run_second_attempt[of net d st t s m] by (simp add: probe_next_def)
next
  case (Cons c cands)
  then obtain m where n: "n = Suc m" and m: "length cands < m" by (cases n) auto
  then obtain j where j: "m = Suc j" by (cases m) auto
  obtain resp st1 where f: "fetch net (normRoot c @ relativePath d) st = (resp, st1)"
    by fastforce
  with Cons.prems(2) have ts: "t = AwaitProbe d c cands resp" "s = st1"
    by (simp_all add: probe_next_def)
  obtain t1 s1 where step: "resume net t s = (t1, s1)"
    by fastforce
  have unfold: "run_alone n net t s = run_alone m net t1 s1"
    using n step by simp
  show ?case
  proof (cases "resp_ok resp")
    case True
    with step ts have "second_attempt net d
        (st1\<lparr>resolvedBasePath := Some (normRoot c), basePath := normRoot c\<rparr>) = (t1, s1)"
      by simp
    from run_second_attempt[OF this, of j] show ?thesis
      unfolding unfold j using f True by simp
  next
    case False
    with step ts have "probe_next net d cands st1 = (t1, s1)"
      by simp
    from Cons.IH[OF m this] show ?thesis
      unfolding unfold using f False by simp
  qed
qed

text \<open>
  A task started and resumed with nothing in between returns, after at most nine runs,
  what loadDayData returns, and leaves the loader as loadDayData leaves it.
\<close>

lemma run_alone_loadDayData:
  "run_alone 9 net (Start d) st = (Done (fst (loadDayData net d st)), snd (loadDayData net d st))"
proof (cases "dataCache st d")
  case (Some data)
  then show ?thesis
    by (simp add: loadDayData_def run_alone_Done eval_nat_numeral)
next
  case None
  obtain resp st1 where f: "fetch net (dayFilePath st d) st = (resp, st1)"
    by fastforce
  obtain t2 s2 where step: "resume net (AwaitFirst d resp) st1 = (t2, s2)"
    by fastforce
  have unfold: "run_alone 9 net (Start d) st = run_alone 7 net t2 s2"
    using None f step by (simp add: eval_nat_numeral)
  show ?thesis
  proof (cases "csv_result resp")
    case (Some rows)
    with step have "t2 = Done (fst (store d rows st1))" "s2 = snd (store d rows st1)"
      by (simp_all add: stored_def split: prod.splits)
    then show ?thesis
      unfolding unfold using None f Some
      by (simp add: run_alone_Done loadDayData_def loadCSVFile_def)
  next
    case r: None
    show ?thesis
    proof (cases "truthy_text (resolvedBasePath st1)")
      case True
      with step r have "second_attempt net d st1 = (t2, s2)"
        by simp
      from run_second_attempt[OF this, of 6] show ?thesis
        unfolding unfold using None f r True
        by (auto simp: loadDayData_def loadCSVFile_def resolveBasePathIfNeeded_def
            truthy_text_def eval_nat_numeral split: option.splits prod.splits
            simp del: run_alone.simps)
    next
      case False
      with step r have next_probe: "probe_next net d (candidates st1) st1 = (t2, s2)"
        by simp
      have "length (candidates st1) < 7" by (simp add: candidates_def)
      from run_probe_next[OF this next_probe] show ?thesis
        unfolding unfold using None f r False
        by (auto simp: loadDayData_def loadCSVFile_def resolveBasePathIfNeeded_def
            probeCandidates_def truthy_text_def split: option.splits prod.splits)
    qed
  qed
qed

section \<open>Properties of the calendar walk\<close>

lemma formatDate_start: "formatDate (days_from_civil 2013 1 5) = ''20130105''"
  by code_simp

text \<open>
  C4, evaluated at startDate "20130105" and 10 days: the walk pushes a date before it
  compares it with "20130101", so it enumerates six dates, the last being 2012-12-31,
  and loadConsecutiveDays starts a load for each: on a loader with an empty cache the
  sixth request goes to the file of 2012-12-31.
\<close>

theorem availableDates_crosses_lower_bound:
  "availableDates (days_from_civil 2013 1 5) 10 =
     [''20130105'', ''20130104'', ''20130103'', ''20130102'', ''20130101'', ''20121231''] \<and>
   fetchLog (snd (launch net (availableDates (days_from_civil 2013 1 5) 10) new_loader)) =
     [''./Dataset/201301/CN-Reanalysis-daily-2013010500.csv'',
      ''./Dataset/201301/CN-Reanalysis-daily-2013010400.csv'',
      ''./Dataset/201301/CN-Reanalysis-daily-2013010300.csv'',
      ''./Dataset/201301/CN-Reanalysis-daily-2013010200.csv'',
      ''./Dataset/201301/CN-Reanalysis-daily-2013010100.csv'',
      ''./Dataset/201212/CN-Reanalysis-daily-2012123100.csv'']"
proof -
  have dates: "availableDates (days_from_civil 2013 1 5) 10 =
     [''20130105'', ''20130104'', ''20130103'', ''20130102'', ''20130101'', ''20121231'']"
    by code_simp
  show ?thesis
    unfolding dates
    by (simp add: launch_def new_loader_def fetch_def dayFilePath_def currentRoot_def
        fileName_def)
qed

end
